theory Spec2Isabelle
  imports Main
begin

section \<open>Runtime values, errors and the scalar configuration\<close>

text \<open>
  The runtime walkers of \<^verbatim>\<open>src/runtime/scalars.ts\<close> receive data of TypeScript type
  \<^verbatim>\<open>unknown\<close>. The values are modelled as JSON-like trees. An object is the list of its
  own enumerable entries in the order \<^verbatim>\<open>Object.entries\<close> yields them; the walkers
  rebuild objects with \<^verbatim>\<open>Object.fromEntries\<close> over a \<^verbatim>\<open>map\<close> that keeps every
  key, so the order and the keys are unchanged. Numbers only pass through the
  walkers; they are integers here.
\<close>

datatype jsval =
    JUndefined
  | JNull
  | JBool bool
  | JNum int
  | JStr string
  | JArr "jsval list"
  | JObj "(string \<times> jsval) list"

text \<open>
  Every \<^verbatim>\<open>throw\<close> of the modelled code is a constructor. \<open>TypeError\<close> is the engine's
  error for reading or destructuring a property of \<^verbatim>\<open>undefined\<close>.
\<close>

datatype list_error_kind = MustHaveName | MustBeString | MustBeUnique

record list_error =
  message :: list_error_kind
  directive_name :: string
  filepath :: string

datatype error =
    TypeError
  | MissingMarshal string
  | MissingUnmarshal string
  | PaginateNotQuery
  | ListErrors "list_error list"
  | ListsMustHaveSelection

subsection \<open>Properties of plain objects\<close>

text \<open>
  The tables of the code (\<^verbatim>\<open>selection\<close>, \<^verbatim>\<open>config.scalars\<close>, \<^verbatim>\<open>lists\<close>) are plain
  objects, and \<^verbatim>\<open>table[name]\<close> also finds what every plain object inherits from
  \<^verbatim>\<open>Object.prototype\<close>: a native function under each of the names below, and the
  prototype itself under \<^verbatim>\<open>__proto__\<close>. Such a value is truthy and has none of the
  members that the code reads from an entry (\<^verbatim>\<open>type\<close>, \<^verbatim>\<open>fields\<close>, \<^verbatim>\<open>marshal\<close>,
  \<^verbatim>\<open>unmarshal\<close>). A table is given by its own properties, and its prototype is taken
  to be the unmodified \<^verbatim>\<open>Object.prototype\<close>.
\<close>

definition object_prototype_names :: "string list" where
  "object_prototype_names =
     [''constructor'', ''hasOwnProperty'', ''isPrototypeOf'', ''propertyIsEnumerable'',
      ''toLocaleString'', ''toString'', ''valueOf'', ''__proto__'',
      ''__defineGetter__'', ''__defineSetter__'', ''__lookupGetter__'', ''__lookupSetter__'']"

datatype 'a property = Own 'a | Inherited | Missing

definition get_property :: "(string \<rightharpoonup> 'a) \<Rightarrow> string \<Rightarrow> 'a property" where
  "get_property table name =
     (case table name of
        Some v \<Rightarrow> Own v
      | None \<Rightarrow> if name \<in> set object_prototype_names then Inherited else Missing)"

text \<open>
  \<^verbatim>\<open>config.scalars\<close> is optional; each entry has optional \<^verbatim>\<open>marshal\<close> and
  \<^verbatim>\<open>unmarshal\<close> functions. The converters are user code; they are taken to be pure
  and total. A converter is a function of the list of arguments of its call: the code
  calls it with one argument, and through \<^verbatim>\<open>Array.prototype.map\<close> with three (the
  element, its index and the array).
\<close>

record scalar_spec =
  marshal :: "(jsval list \<Rightarrow> jsval) option"
  unmarshal :: "(jsval list \<Rightarrow> jsval) option"

record config_file =
  scalars :: "(string \<rightharpoonup> scalar_spec) option"

text \<open>
  The compiled selection: \<^verbatim>\<open>selection[fieldName]\<close> gives an entry whose \<^verbatim>\<open>type\<close>
  may be omitted and whose \<^verbatim>\<open>fields\<close> is the nested selection of an object field.
\<close>

datatype selection = Selection (sel_entries: "(string \<times> field_sel) list")
  and field_sel = FieldSel (fs_type: "string option") (fs_fields: "selection option")

text \<open>The input descriptor of an artifact: \<^verbatim>\<open>{fields, types}\<close>.\<close>

record input_object =
  in_fields :: "string \<rightharpoonup> string"
  in_types :: "string \<rightharpoonup> (string \<rightharpoonup> string)"

record artifact =
  input :: "input_object option"

subsection \<open>\<^verbatim>\<open>Object.entries\<close>\<close>

fun digit_char :: "nat \<Rightarrow> char" where
  "digit_char n = char_of (48 + n)"

fun index_key :: "nat \<Rightarrow> string" where
  "index_key n =
     (if n < 10 then [digit_char n] else index_key (n div 10) @ [digit_char (n mod 10)])"

text \<open>
  \<^verbatim>\<open>Object.entries\<close> of an object gives its entries, of an array or a string the
  index/element pairs (a string's elements are its one-character strings), and of a
  number or a boolean nothing.
\<close>

fun object_entries :: "jsval \<Rightarrow> (string \<times> jsval) list" where
  "object_entries (JObj es) = es"
| "object_entries (JArr xs) = zip (map index_key [0..<length xs]) xs"
| "object_entries (JStr s) = zip (map index_key [0..<length s]) (map (\<lambda>c. JStr [c]) s)"
| "object_entries _ = []"

text \<open>
  \<^verbatim>\<open>Array.prototype.map\<close> with a callback that may throw: the elements are visited in
  order and the first exception leaves the loop.
\<close>

fun mapE :: "('a \<Rightarrow> 'e + 'b) \<Rightarrow> 'a list \<Rightarrow> 'e + 'b list" where
  "mapE f [] = Inr []"
| "mapE f (x # xs) =
     (case f x of
        Inl e \<Rightarrow> Inl e
      | Inr y \<Rightarrow> (case mapE f xs of Inl e \<Rightarrow> Inl e | Inr ys \<Rightarrow> Inr (y # ys)))"

lemma mapE_cong [fundef_cong]:
  "xs = ys \<Longrightarrow> (\<And>x. x \<in> set ys \<Longrightarrow> f x = g x) \<Longrightarrow> mapE f xs = mapE g ys"
  by (induction ys arbitrary: xs) (auto split: sum.splits)

text \<open>
  \<^verbatim>\<open>value.map(fn)\<close> for a converter: the callback receives the element, its index and
  the array.
\<close>

definition array_map :: "(jsval list \<Rightarrow> jsval) \<Rightarrow> jsval list \<Rightarrow> jsval list" where
  "array_map fn vs = map (\<lambda>p. fn [snd p, JNum (int (fst p)), JArr vs]) (zip [0..<length vs] vs)"

text \<open>\<^verbatim>\<open>selection[fieldName]\<close>\<close>

definition selection_entry :: "selection \<Rightarrow> string \<Rightarrow> field_sel property" where
  "selection_entry selection fieldName = get_property (map_of (sel_entries selection)) fieldName"

text \<open>\<^verbatim>\<open>config.scalars?.[type]\<close>\<close>

definition scalar_of :: "config_file \<Rightarrow> string \<Rightarrow> scalar_spec property" where
  "scalar_of config t = (case scalars config of None \<Rightarrow> Missing | Some m \<Rightarrow> get_property m t)"

subsection \<open>\<^verbatim>\<open>marshalSelection\<close>\<close>

text \<open>
  Lines 46 to 61 of \<^verbatim>\<open>scalars.ts\<close>: the field has a type and no nested selection.
\<close>

definition marshalScalar :: "config_file \<Rightarrow> string \<Rightarrow> jsval \<Rightarrow> error + jsval" where
  "marshalScalar config t v =
     (case scalar_of config t of
        Own sc \<Rightarrow>
          (case marshal sc of
             None \<Rightarrow> Inl (MissingMarshal t)
           | Some marshalFn \<Rightarrow>
               (case v of
                  JArr vs \<Rightarrow> Inr (JArr (array_map marshalFn vs))
                | _ \<Rightarrow> Inr (marshalFn [v])))
      | Inherited \<Rightarrow> Inl (MissingMarshal t)
      | Missing \<Rightarrow> Inr v)"

text \<open>
  The walker. Destructuring \<^verbatim>\<open>selection[fieldName]\<close> throws when the lookup gives
  \<^verbatim>\<open>undefined\<close>; an inherited value has no \<^verbatim>\<open>type\<close>. \<^verbatim>\<open>!type\<close> holds for an
  omitted type and for the empty string.
\<close>

function (sequential) marshalSelection ::
  "config_file \<Rightarrow> selection \<Rightarrow> jsval \<Rightarrow> error + jsval" where
  "marshalSelection config selection JNull = Inr JNull"
| "marshalSelection config selection JUndefined = Inr JUndefined"
| "marshalSelection config selection (JArr xs) =
     (case mapE (\<lambda>val. marshalSelection config selection val) xs of
        Inl e \<Rightarrow> Inl e
      | Inr ys \<Rightarrow> Inr (JArr ys))"
| "marshalSelection config selection data =
     (case mapE (\<lambda>entry.
          (case selection_entry selection (fst entry) of
             Missing \<Rightarrow> Inl TypeError
           | Inherited \<Rightarrow> Inr entry
           | Own f \<Rightarrow>
               (case fs_type f of
                  None \<Rightarrow> Inr entry
                | Some t \<Rightarrow>
                    if t = [] then Inr entry
                    else (case fs_fields f of
                            Some sub \<Rightarrow>
                              (case marshalSelection config sub (snd entry) of
                                 Inl e \<Rightarrow> Inl e
                               | Inr v \<Rightarrow> Inr (fst entry, v))
                          | None \<Rightarrow>
                              (case marshalScalar config t (snd entry) of
                                 Inl e \<Rightarrow> Inl e
                               | Inr v \<Rightarrow> Inr (fst entry, v))))))
        (object_entries data) of
        Inl e \<Rightarrow> Inl e
      | Inr es \<Rightarrow> Inr (JObj es))"
  by pat_completeness auto

lemma map_of_fields_size:
  "map_of es k = Some f \<Longrightarrow> fs_fields f = Some sub \<Longrightarrow> size sub < size (Selection es)"
  by (induction es) (auto split: if_splits, (cases f; simp)+)

lemma selection_entry_Own:
  "(selection_entry s k = Own f) = (map_of (sel_entries s) k = Some f)"
  by (auto simp: selection_entry_def get_property_def split: option.splits)

lemma fields_size:
  "selection_entry s k = Own f \<Longrightarrow> fs_fields f = Some sub \<Longrightarrow> size sub < size s"
  by (cases s) (auto simp: selection_entry_Own dest: map_of_fields_size)

lemma elem_size: "x \<in> set xs \<Longrightarrow> size (x::jsval) < Suc (size_list size xs)"
  by (induction xs) auto

termination marshalSelection
  apply (relation "(\<lambda>(c, s, d). size s) <*mlex*> measure (\<lambda>(c, s, d). size d)")
  apply (auto simp: mlex_prod_def elem_size dest: fields_size)
  done

lemmas marshalSelection_induct =
  marshalSelection.induct [case_names Null Undefined Array Bool Num Str Obj]

subsection \<open>\<^verbatim>\<open>unmarshalSelection\<close>\<close>

text \<open>
  Lines 161 to 177: the guard reads \<^verbatim>\<open>config.scalars?.[type]?.marshal\<close>, so the
  \<^verbatim>\<open>unmarshal\<close> function is looked at only for a scalar that has a \<^verbatim>\<open>marshal\<close>
  function, and an inherited value passes the guard of \<^verbatim>\<open>marshalSelection\<close>
  (\<^verbatim>\<open>config.scalars?.[type]\<close>) but not this one.
\<close>

definition unmarshalScalar :: "config_file \<Rightarrow> string \<Rightarrow> jsval \<Rightarrow> error + jsval" where
  "unmarshalScalar config t v =
     (case scalar_of config t of
        Own sc \<Rightarrow>
          (case marshal sc of
             Some marshalFn \<Rightarrow>
               (case unmarshal sc of
                  None \<Rightarrow> Inl (MissingUnmarshal t)
                | Some unmarshalFn \<Rightarrow>
                    (case v of
                       JArr vs \<Rightarrow> Inr (JArr (array_map unmarshalFn vs))
                     | _ \<Rightarrow> Inr (unmarshalFn [v])))
           | None \<Rightarrow> Inr v)
      | Inherited \<Rightarrow> Inr v
      | Missing \<Rightarrow> Inr v)"

function (sequential) unmarshalSelection ::
  "config_file \<Rightarrow> selection \<Rightarrow> jsval \<Rightarrow> error + jsval" where
  "unmarshalSelection config selection JNull = Inr JNull"
| "unmarshalSelection config selection JUndefined = Inr JUndefined"
| "unmarshalSelection config selection (JArr xs) =
     (case mapE (\<lambda>val. unmarshalSelection config selection val) xs of
        Inl e \<Rightarrow> Inl e
      | Inr ys \<Rightarrow> Inr (JArr ys))"
| "unmarshalSelection config selection data =
     (case mapE (\<lambda>entry.
          (case selection_entry selection (fst entry) of
             Missing \<Rightarrow> Inl TypeError
           | Inherited \<Rightarrow> Inr entry
           | Own f \<Rightarrow>
               (case fs_type f of
                  None \<Rightarrow> Inr entry
                | Some t \<Rightarrow>
                    if t = [] then Inr entry
                    else (case fs_fields f of
                            Some sub \<Rightarrow>
                              (case unmarshalSelection config sub (snd entry) of
                                 Inl e \<Rightarrow> Inl e
                               | Inr v \<Rightarrow> Inr (fst entry, v))
                          | None \<Rightarrow>
                              (case unmarshalScalar config t (snd entry) of
                                 Inl e \<Rightarrow> Inl e
                               | Inr v \<Rightarrow> Inr (fst entry, v))))))
        (object_entries data) of
        Inl e \<Rightarrow> Inl e
      | Inr es \<Rightarrow> Inr (JObj es))"
  by pat_completeness auto

termination unmarshalSelection
  apply (relation "(\<lambda>(c, s, d). size s) <*mlex*> measure (\<lambda>(c, s, d). size d)")
  apply (auto simp: mlex_prod_def elem_size dest: fields_size)
  done

lemmas unmarshalSelection_induct =
  unmarshalSelection.induct [case_names Null Undefined Array Bool Num Str Obj]

subsection \<open>\<^verbatim>\<open>marshalInputs\<close>\<close>

text \<open>
  \<^verbatim>\<open>isScalar\<close>: the built-in scalar names and \<^verbatim>\<open>Object.keys(config.scalars || {})\<close>,
  the own names of the table.
\<close>

definition isScalar :: "config_file \<Rightarrow> string \<Rightarrow> bool" where
  "isScalar config t =
     (t \<in> set [''String'', ''Boolean'', ''Float'', ''ID'', ''Int'']
      \<or> (case scalars config of None \<Rightarrow> False | Some m \<Rightarrow> m t \<noteq> None))"

text \<open>\<^verbatim>\<open>config.scalars?.[type]?.marshal\<close>: an inherited value has no such member.\<close>

definition marshal_of :: "config_file \<Rightarrow> string \<Rightarrow> (jsval list \<Rightarrow> jsval) option" where
  "marshal_of config t = (case scalar_of config t of Own sc \<Rightarrow> marshal sc | _ \<Rightarrow> None)"

text \<open>
  \<^verbatim>\<open>Array.prototype.map\<close> for a callback that may throw or may not return.
\<close>

fun mapEO :: "('a \<Rightarrow> ('e + 'b) option) \<Rightarrow> 'a list \<Rightarrow> ('e + 'b list) option" where
  "mapEO f [] = Some (Inr [])"
| "mapEO f (x # xs) =
     (case f x of
        None \<Rightarrow> None
      | Some (Inl e) \<Rightarrow> Some (Inl e)
      | Some (Inr y) \<Rightarrow>
          (case mapEO f xs of
             None \<Rightarrow> None
           | Some (Inl e) \<Rightarrow> Some (Inl e)
           | Some (Inr ys) \<Rightarrow> Some (Inr (y # ys))))"

text \<open>
  \<^verbatim>\<open>marshalInputs\<close> follows the type names of the input descriptor, which may refer to
  each other in a cycle, while \<^verbatim>\<open>Object.entries\<close> of a one-character string gives
  that string back: the recursion need not end. The first argument bounds the depth
  of the recursion; \<open>None\<close> is "has not returned within the bound". The caller
  passes \<^verbatim>\<open>'@root'\<close> as \<open>rootType\<close> when it gives none. The two tables of the
  descriptor are looked up by own names, so that the model covers the descriptors and
  inputs whose field names and type names are not names of properties of
  \<^verbatim>\<open>Object.prototype\<close>: for such a name the code finds a native function in the
  table, and what it does next depends on the properties of that function and on the
  text that the engine prints for it. The lookups come after the two early returns.
\<close>

fun marshalInputs ::
  "nat \<Rightarrow> artifact \<Rightarrow> config_file \<Rightarrow> jsval \<Rightarrow> string \<Rightarrow> (error + jsval) option" where
  "marshalInputs 0 artifact config inp rootType = None"
| "marshalInputs (Suc n) artifact config inp rootType =
     (if inp = JNull \<or> inp = JUndefined then Some (Inr inp)
      else case input artifact of
        None \<Rightarrow> Some (Inr inp)
      | Some desc \<Rightarrow>
          (let fields = (if rootType = ''@root'' then Some (in_fields desc)
                         else in_types desc rootType)
           in case inp of
             JArr xs \<Rightarrow>
               (case mapEO (\<lambda>val. marshalInputs n artifact config val rootType) xs of
                  None \<Rightarrow> None
                | Some (Inl e) \<Rightarrow> Some (Inl e)
                | Some (Inr ys) \<Rightarrow> Some (Inr (JArr ys)))
           | _ \<Rightarrow>
               (case mapEO (\<lambda>entry.
                    (case (case fields of None \<Rightarrow> None | Some fs \<Rightarrow> fs (fst entry)) of
                       None \<Rightarrow> Some (Inr entry)
                     | Some t \<Rightarrow>
                         if t = [] then Some (Inr entry)
                         else (case marshal_of config t of
                                 Some marshalFn \<Rightarrow>
                                   (case snd entry of
                                      JArr vs \<Rightarrow>
                                        Some (Inr (fst entry, JArr (array_map marshalFn vs)))
                                    | v \<Rightarrow> Some (Inr (fst entry, marshalFn [v])))
                               | None \<Rightarrow>
                                   if isScalar config t \<or> in_types desc t = None
                                   then Some (Inr entry)
                                   else (case marshalInputs n artifact config (snd entry) t of
                                           None \<Rightarrow> None
                                         | Some (Inl e) \<Rightarrow> Some (Inl e)
                                         | Some (Inr v) \<Rightarrow> Some (Inr (fst entry, v))))))
                  (object_entries inp) of
                  None \<Rightarrow> None
                | Some (Inl e) \<Rightarrow> Some (Inl e)
                | Some (Inr es) \<Rightarrow> Some (Inr (JObj es)))))"

subsection \<open>Data that a selection covers, converters that are inverses\<close>







text \<open>The callbacks of the two walkers, named for the proofs.\<close>

definition marshalField :: "config_file \<Rightarrow> selection \<Rightarrow> string \<times> jsval \<Rightarrow> error + string \<times> jsval" where
  "marshalField config selection entry =
     (case selection_entry selection (fst entry) of
        Missing \<Rightarrow> Inl TypeError
      | Inherited \<Rightarrow> Inr entry
      | Own f \<Rightarrow>
          (case fs_type f of
             None \<Rightarrow> Inr entry
           | Some t \<Rightarrow>
               if t = [] then Inr entry
               else (case fs_fields f of
                       Some sub \<Rightarrow>
                         (case marshalSelection config sub (snd entry) of
                            Inl e \<Rightarrow> Inl e
                          | Inr v \<Rightarrow> Inr (fst entry, v))
                     | None \<Rightarrow>
                         (case marshalScalar config t (snd entry) of
                            Inl e \<Rightarrow> Inl e
                          | Inr v \<Rightarrow> Inr (fst entry, v)))))"

definition unmarshalField :: "config_file \<Rightarrow> selection \<Rightarrow> string \<times> jsval \<Rightarrow> error + string \<times> jsval" where
  "unmarshalField config selection entry =
     (case selection_entry selection (fst entry) of
        Missing \<Rightarrow> Inl TypeError
      | Inherited \<Rightarrow> Inr entry
      | Own f \<Rightarrow>
          (case fs_type f of
             None \<Rightarrow> Inr entry
           | Some t \<Rightarrow>
               if t = [] then Inr entry
               else (case fs_fields f of
                       Some sub \<Rightarrow>
                         (case unmarshalSelection config sub (snd entry) of
                            Inl e \<Rightarrow> Inl e
                          | Inr v \<Rightarrow> Inr (fst entry, v))
                     | None \<Rightarrow>
                         (case unmarshalScalar config t (snd entry) of
                            Inl e \<Rightarrow> Inl e
                          | Inr v \<Rightarrow> Inr (fst entry, v)))))"

subsection \<open>Example configurations and data\<close>












section \<open>GraphQL documents\<close>

text \<open>
  The nodes of a parsed document that the two transforms read. A node property that
  the code reads with \<^verbatim>\<open>?.\<close> is optional here as well.
\<close>

datatype value_node =
    Variable string
  | StringValue string
  | IntValue string
  | BooleanValue bool
  | OtherValue

record argument_node =
  arg_name :: string
  arg_value :: value_node

record directive_node =
  dir_name :: string
  dir_arguments :: "argument_node list option"

datatype selection_node =
    FieldNode (field_name: string) (field_alias: "string option")
      (field_arguments: "argument_node list option")
      (field_directives: "directive_node list option")
      (field_selectionSet: "selection_node list option")
  | FragmentSpreadNode string "directive_node list option"
  | InlineFragmentNode "string option" "selection_node list"

text \<open>The directive names of the configuration.\<close>

record config =
  paginateDirective :: string
  listDirective :: string

text \<open>\<^verbatim>\<open>node.directives?.find((directive) => directive.name.value === name)\<close>\<close>

definition find_directive :: "string \<Rightarrow> directive_node list option \<Rightarrow> directive_node option" where
  "find_directive n ds =
     (case ds of None \<Rightarrow> None | Some l \<Rightarrow> find (\<lambda>d. dir_name d = n) l)"

section \<open>The pagination transform\<close>

text \<open>
  \<^verbatim>\<open>PaginationFlags\<close>: the \<^verbatim>\<open>enabled\<close> member of each of the six entries. The
  \<^verbatim>\<open>type\<close> of an entry is a constant and its \<^verbatim>\<open>defaultValue\<close> is written by
  \<^verbatim>\<open>replaceArgumentsWithVariables\<close>, which never writes \<^verbatim>\<open>enabled\<close>; neither is
  modelled, nor are the members \<^verbatim>\<open>pageSize\<close> and \<^verbatim>\<open>start\<close> of the refetch
  descriptor, which are copies of default values.
\<close>

record pagination_flags =
  first_enabled :: bool
  after_enabled :: bool
  last_enabled :: bool
  before_enabled :: bool
  limit_enabled :: bool
  offset_enabled :: bool

definition initial_flags :: pagination_flags where
  "initial_flags =
     \<lparr>first_enabled = False, after_enabled = False, last_enabled = False,
      before_enabled = False, limit_enabled = False, offset_enabled = False\<rparr>"

text \<open>
  Lines 99 to 120 of the transform: \<open>args\<close> are the argument names that the schema
  declares for the tagged field and \<open>passedArgs\<close> the argument names at the call site.
\<close>

definition paginationFlags :: "string list \<Rightarrow> string list \<Rightarrow> pagination_flags" where
  "paginationFlags args passedArgs =
     (let specifiedForwards = ''first'' \<in> set passedArgs;
          specifiedBackwards = ''last'' \<in> set passedArgs;
          forwardPagination =
            (\<not> specifiedBackwards \<and> ''first'' \<in> set args \<and> ''after'' \<in> set args);
          backwardsPagination =
            (\<not> specifiedForwards \<and> ''last'' \<in> set args \<and> ''before'' \<in> set args);
          offsetPagination =
            (\<not> forwardPagination \<and> \<not> backwardsPagination
             \<and> ''offset'' \<in> set args \<and> ''limit'' \<in> set args)
      in \<lparr>first_enabled = forwardPagination, after_enabled = forwardPagination,
          last_enabled = backwardsPagination, before_enabled = backwardsPagination,
          limit_enabled = offsetPagination, offset_enabled = offsetPagination\<rparr>)"

text \<open>
  What the first \<^verbatim>\<open>graphql.visit\<close> of a document hands to the \<^verbatim>\<open>Field\<close> visitor,
  one record for each field in visit order: the node, its ancestors that are fields
  (outermost first) and the argument names of the field's definition, which the code
  reads from the schema through \<^verbatim>\<open>parentTypeFromAncestors\<close> (that lookup is taken
  to succeed).
\<close>

record field_visit =
  fv_node :: selection_node
  fv_ancestors :: "selection_node list"
  fv_schema_args :: "string list"

text \<open>\<^verbatim>\<open>field.alias?.value || field.name.value\<close>\<close>

fun response_name :: "selection_node \<Rightarrow> string" where
  "response_name (FieldNode n (Some a) _ _ _) = (if a = [] then n else a)"
| "response_name (FieldNode n None _ _ _) = n"
| "response_name _ = []"

definition passed_argument_names :: "argument_node list option \<Rightarrow> string list" where
  "passed_argument_names as = (case as of None \<Rightarrow> [] | Some l \<Rightarrow> map arg_name l)"

record paginate_state =
  paginated :: bool
  flags :: pagination_flags
  paginationPath :: "string list"

definition initial_paginate_state :: paginate_state where
  "initial_paginate_state = \<lparr>paginated = False, flags = initial_flags, paginationPath = []\<rparr>"

text \<open>The \<^verbatim>\<open>Field\<close> visitor, lines 77 to 130, on the variables it assigns.\<close>

definition visitField :: "config \<Rightarrow> paginate_state \<Rightarrow> field_visit \<Rightarrow> paginate_state" where
  "visitField cfg st v =
     (case fv_node v of
        FieldNode n a as ds sel \<Rightarrow>
          if find_directive (paginateDirective cfg) ds = None \<or> sel = None then st
          else \<lparr>paginated = True,
                flags = paginationFlags (fv_schema_args v) (passed_argument_names as),
                paginationPath = map response_name (fv_ancestors v @ [fv_node v])\<rparr>
      | _ \<Rightarrow> st)"

datatype operation = Query | Mutation | Subscription

datatype definition_node =
    OperationDefinition operation "string option"
  | FragmentDefinition string string

datatype refetch_update_mode = Append | Prepend

datatype refetch_method = Cursor | Offset

record refetch =
  update :: refetch_update_mode
  path :: "string list"
  fetch_method :: refetch_method
  embedded :: bool
  targetType :: string

text \<open>
  A collected document as the transform reads it: the definitions (an operation with
  its kind and name, a fragment with its name and type condition), the fields in
  visit order, and the refetch descriptor that the transform records.
\<close>

record collected_document =
  doc_filename :: string
  doc_definitions :: "definition_node list"
  doc_fields :: "field_visit list"
  doc_refetch :: "refetch option"

text \<open>
  What the transform asks the schema: the name of the query type, and the names of the
  types that implement the \<^verbatim>\<open>Node\<close> interface (\<open>None\<close> without such an interface).
\<close>

record schema_info =
  queryTypeName :: "string option"
  nodeImplementations :: "string list option"

text \<open>
  The second visit, lines 168 to 250, on the variables \<^verbatim>\<open>nodeQuery\<close> and
  \<^verbatim>\<open>fragment\<close>: an operation that is not a query throws.
\<close>

fun visitDefinitions ::
  "schema_info \<Rightarrow> definition_node list \<Rightarrow> bool \<times> string \<Rightarrow> error + bool \<times> string" where
  "visitDefinitions schema [] st = Inr st"
| "visitDefinitions schema (OperationDefinition op n # ds) st =
     (if op \<noteq> Query then Inl PaginateNotQuery else visitDefinitions schema ds st)"
| "visitDefinitions schema (FragmentDefinition n typeCondition # ds) st =
     visitDefinitions schema ds (Some typeCondition \<noteq> queryTypeName schema, typeCondition)"

text \<open>Lines 279 to 296.\<close>

definition refetchTargetType :: "schema_info \<Rightarrow> string \<Rightarrow> string" where
  "refetchTargetType schema fragment =
     (if fragment \<noteq> [] then
        (case nodeImplementations schema of
           Some impls \<Rightarrow> if fragment \<in> set impls then ''Node'' else fragment
         | None \<Rightarrow> fragment)
      else (case queryTypeName schema of Some n \<Rightarrow> n | None \<Rightarrow> []))"

text \<open>
  The body of the loop over the documents, up to the assignment of \<^verbatim>\<open>doc.refetch\<close>
  (line 306). The rewriting of the syntax tree and the generated refetch query are not
  modelled.
\<close>

definition paginateDocument ::
  "config \<Rightarrow> schema_info \<Rightarrow> collected_document \<Rightarrow> error + collected_document" where
  "paginateDocument cfg schema doc =
     (let st = foldl (visitField cfg) initial_paginate_state (doc_fields doc) in
      if \<not> paginated st then Inr doc
      else
        (let refetchUpdate = (if last_enabled (flags st) then Prepend else Append) in
         case visitDefinitions schema (doc_definitions doc) (False, []) of
           Inl e \<Rightarrow> Inl e
         | Inr (nodeQuery, fragment) \<Rightarrow>
             Inr (doc\<lparr>doc_refetch := Some
               \<lparr>update = refetchUpdate,
                path = paginationPath st,
                fetch_method = (if first_enabled (flags st) \<or> last_enabled (flags st)
                          then Cursor else Offset),
                embedded = nodeQuery,
                targetType = refetchTargetType schema fragment\<rparr>\<rparr>)))"

subsection \<open>An example document\<close>

text \<open>
  \<^verbatim>\<open>fragment UserFriends on User { friends(last: 10) @paginate { edges { node { id } } } }\<close>
  where the schema declares \<^verbatim>\<open>first\<close>, \<^verbatim>\<open>after\<close>, \<^verbatim>\<open>last\<close> and \<^verbatim>\<open>before\<close> for
  \<^verbatim>\<open>friends\<close>.
\<close>

definition friends_field :: selection_node where
  "friends_field = FieldNode ''friends'' None
     (Some [\<lparr>arg_name = ''last'', arg_value = IntValue ''10''\<rparr>])
     (Some [\<lparr>dir_name = ''paginate'', dir_arguments = Some []\<rparr>])
     (Some [FieldNode ''edges'' None None None
        (Some [FieldNode ''node'' None None None (Some [FieldNode ''id'' None None None None])])])"

definition friends_document :: collected_document where
  "friends_document =
     \<lparr>doc_filename = ''friends.graphql'',
      doc_definitions = [FragmentDefinition ''UserFriends'' ''User''],
      doc_fields = [\<lparr>fv_node = friends_field, fv_ancestors = [],
                     fv_schema_args = [''first'', ''after'', ''last'', ''before'']\<rparr>],
      doc_refetch = None\<rparr>"

text \<open>
  Visits of tagged fields whose definition declares the four cursor arguments: the
  field of the document above; \<^verbatim>\<open>friends(first: 10) @paginate { id }\<close> on a field that
  also declares \<^verbatim>\<open>limit\<close> and \<^verbatim>\<open>offset\<close>; \<^verbatim>\<open>friends @paginate { id }\<close>; and
  \<^verbatim>\<open>ids(last: 5) @paginate\<close>, which has no selection set.
\<close>

definition friends_last_visit :: field_visit where
  "friends_last_visit =
     \<lparr>fv_node = friends_field, fv_ancestors = [],
      fv_schema_args = [''first'', ''after'', ''last'', ''before'']\<rparr>"

definition friends_first_visit :: field_visit where
  "friends_first_visit =
     \<lparr>fv_node = FieldNode ''friends'' None
        (Some [\<lparr>arg_name = ''first'', arg_value = IntValue ''10''\<rparr>])
        (Some [\<lparr>dir_name = ''paginate'', dir_arguments = Some []\<rparr>])
        (Some [FieldNode ''id'' None None None None]),
      fv_ancestors = [],
      fv_schema_args = [''first'', ''after'', ''last'', ''before'', ''limit'', ''offset'']\<rparr>"

definition friends_plain_visit :: field_visit where
  "friends_plain_visit =
     \<lparr>fv_node = FieldNode ''friends'' None (Some [])
        (Some [\<lparr>dir_name = ''paginate'', dir_arguments = Some []\<rparr>])
        (Some [FieldNode ''id'' None None None None]),
      fv_ancestors = [],
      fv_schema_args = [''first'', ''after'', ''last'', ''before'']\<rparr>"

definition ids_last_visit :: field_visit where
  "ids_last_visit =
     \<lparr>fv_node = FieldNode ''ids'' None
        (Some [\<lparr>arg_name = ''last'', arg_value = IntValue ''5''\<rparr>])
        (Some [\<lparr>dir_name = ''paginate'', dir_arguments = Some []\<rparr>])
        None,
      fv_ancestors = [],
      fv_schema_args = [''first'', ''after'', ''last'', ''before'']\<rparr>"

section \<open>The list transform\<close>

subsection \<open>Schema types\<close>

datatype type_ref =
    NamedType string
  | ListType type_ref
  | NonNullType type_ref

text \<open>A field definition of the schema: its arguments with their types, and its type.\<close>

record field_def =
  fd_args :: "(string \<times> type_ref) list"
  fd_type :: type_ref

text \<open>
  \<^verbatim>\<open>getFields()\<close> of a named type, by the name of the type: the field definitions by
  name, and \<open>None\<close> for a type that has no such method (a scalar, an enum, a union).
\<close>

type_synonym schema_fields = "string \<rightharpoonup> (string \<rightharpoonup> field_def)"

datatype type_wrapper = TypeWrapper_Nullable | TypeWrapper_NonNull | TypeWrapper_List

text \<open>
  Modelled from the spec: the nullable entry that \<^verbatim>\<open>unwrapType\<close> (not among the
  sources) records for a level that is not non-null.
\<close>

fun nullable_mark :: "type_wrapper list \<Rightarrow> type_wrapper list" where
  "nullable_mark (TypeWrapper_NonNull # ws) = TypeWrapper_NonNull # ws"
| "nullable_mark ws = TypeWrapper_Nullable # ws"

text \<open>
  Modelled from the spec: \<^verbatim>\<open>unwrapType\<close> of \<^verbatim>\<open>cmd/utils\<close> is not among the sources.
  The spec has the edges member type "resolve through a list wrapper", and the comment
  at its call in \<^verbatim>\<open>connectionSelection\<close> fixes the result: the named type, and the
  wrappers innermost first with the top level last and a nullable entry wherever a
  level is not non-null, so that a nullable list of non-null elements is
  \<^verbatim>\<open>[NonNull, List, Nullable]\<close>. Named types are taken to exist in the schema.
\<close>

fun unwrapType :: "type_ref \<Rightarrow> type_wrapper list \<Rightarrow> string \<times> type_wrapper list" where
  "unwrapType (NonNullType t) wrappers = unwrapType t (TypeWrapper_NonNull # wrappers)"
| "unwrapType (ListType t) wrappers = unwrapType t (TypeWrapper_List # nullable_mark wrappers)"
| "unwrapType (NamedType n) wrappers = (n, nullable_mark wrappers)"

subsection \<open>\<^verbatim>\<open>connectionSelection\<close>\<close>

text \<open>
  The result \<^verbatim>\<open>{selection, type, connection}\<close>; a type object is given by its name.
\<close>

record connection_result =
  cr_selection :: "selection_node list option"
  cr_type :: string
  cr_connection :: bool

text \<open>\<^verbatim>\<open>selection.kind === 'Field' && selection.name.value === name\<close>\<close>

fun is_field_named :: "string \<Rightarrow> selection_node \<Rightarrow> bool" where
  "is_field_named n (FieldNode m _ _ _ _) = (m = n)"
| "is_field_named n _ = False"

text \<open>
  The \<^verbatim>\<open>reduce\<close> over \<^verbatim>\<open>field.args\<close>: a later argument of the same name overwrites an
  earlier one.
\<close>

definition fieldArgs :: "field_def \<Rightarrow> string \<rightharpoonup> string" where
  "fieldArgs field = map_of (rev (map (\<lambda>arg. (fst arg, fst (unwrapType (snd arg) []))) (fd_args field)))"

text \<open>\<^verbatim>\<open>wrappers[wrappers.length - 2]\<close>, which is \<^verbatim>\<open>undefined\<close> for fewer than two wrappers.\<close>

definition second_to_last :: "'a list \<Rightarrow> 'a option" where
  "second_to_last ws = (if 2 \<le> length ws then Some (ws ! (length ws - 2)) else None)"

text \<open>
  Lines 1067 to 1129. Reading \<^verbatim>\<open>nodeSelection.selectionSet\<close> throws when the edges
  selection has no \<^verbatim>\<open>node\<close> field, \<^verbatim>\<open>getFields\<close> throws on a type without that method,
  and \<^verbatim>\<open>edgeField.type\<close> throws when the type of the field has no \<^verbatim>\<open>edges\<close> member.
\<close>

definition connectionSelection ::
  "schema_fields \<Rightarrow> field_def \<Rightarrow> string \<Rightarrow> selection_node list option
     \<Rightarrow> error + connection_result" where
  "connectionSelection schema field type selection =
     (let not_connection = \<lparr>cr_selection = selection, cr_type = type, cr_connection = False\<rparr>;
          forwardPagination =
            (fieldArgs field ''first'' = Some ''Int'' \<and> fieldArgs field ''after'' = Some ''String'');
          backwardsPagination =
            (fieldArgs field ''last'' = Some ''Int'' \<and> fieldArgs field ''before'' = Some ''String'')
      in
      if \<not> forwardPagination \<and> \<not> backwardsPagination then Inr not_connection
      else
        case (case selection of None \<Rightarrow> None | Some sels \<Rightarrow> find (is_field_named ''edges'') sels) of
          None \<Rightarrow> Inr not_connection
        | Some edgesField \<Rightarrow>
            (case (case field_selectionSet edgesField of
                     None \<Rightarrow> None
                   | Some sels \<Rightarrow> find (is_field_named ''node'') sels) of
               None \<Rightarrow> Inl TypeError
             | Some nodeSelection \<Rightarrow>
                 (case field_selectionSet nodeSelection of
                    None \<Rightarrow> Inr not_connection
                  | Some nodeSelectionSet \<Rightarrow>
                      (case schema (fst (unwrapType (fd_type field) [])) of
                         None \<Rightarrow> Inl TypeError
                       | Some typeFields \<Rightarrow>
                           (case typeFields ''edges'' of
                              None \<Rightarrow> Inl TypeError
                            | Some edgeField \<Rightarrow>
                                (let (edgeFieldType, wrappers) = unwrapType (fd_type edgeField) [];
                                     list = (second_to_last wrappers = Some TypeWrapper_List)
                                 in
                                 if \<not> list then Inr not_connection
                                 else
                                   (case schema edgeFieldType of
                                      None \<Rightarrow> Inl TypeError
                                    | Some edgeFields \<Rightarrow>
                                        (case edgeFields ''node'' of
                                           None \<Rightarrow> Inr not_connection
                                         | Some nodeField \<Rightarrow>
                                             Inr \<lparr>cr_selection = Some nodeSelectionSet,
                                                  cr_type = fst (unwrapType (fd_type nodeField) []),
                                                  cr_connection = True\<rparr>))))))))"

subsection \<open>The walk of \<^verbatim>\<open>addListFragments\<close>\<close>

text \<open>
  What \<^verbatim>\<open>graphql.visit\<close> hands to the two visitors, in visit order. For a directive:
  the node, and what the code looks up for the field that carries it (the last
  ancestor): the definition of that field, its type, and its selection set. For a
  field: the node, its definition and its type. The lookups in the schema
  (\<^verbatim>\<open>parentTypeFromAncestors\<close>, not among the sources) are taken to succeed.
\<close>

record directive_visit =
  dv_node :: directive_node
  dv_field_def :: field_def
  dv_type :: string
  dv_selection :: "selection_node list option"

record list_field_visit =
  lv_node :: selection_node
  lv_field_def :: field_def
  lv_type :: string

datatype visit = VisitDirective directive_visit | VisitField list_field_visit

record list_document =
  ld_filename :: string
  ld_visits :: "visit list"

text \<open>
  An entry of \<^verbatim>\<open>lists\<close>, and the two variables that the walk updates. \<^verbatim>\<open>lists\<close>
  starts as \<^verbatim>\<open>{}\<close>, a plain object: \<open>ws_lists\<close> are its own entries in the order of
  their first assignment, and \<open>ws_proto\<close> is the entry that an assignment to the name
  \<^verbatim>\<open>__proto__\<close> has made its prototype (\<open>None\<close> as long as the prototype is
  \<^verbatim>\<open>Object.prototype\<close>).
\<close>

record list_registration =
  lr_selection :: "selection_node list option"
  lr_type :: string
  lr_filename :: string

record walk_state =
  ws_lists :: "(string \<times> list_registration) list"
  ws_proto :: "list_registration option"
  ws_errors :: "list_error list"

definition initial_walk_state :: walk_state where
  "initial_walk_state = \<lparr>ws_lists = [], ws_proto = None, ws_errors = []\<rparr>"

text \<open>
  \<^verbatim>\<open>if (lists[name])\<close>, line 785: an own entry is an object and so is truthy; every
  property of \<^verbatim>\<open>Object.prototype\<close> is a function or an object and so is truthy; and
  once an entry is the prototype its members are visible as well: \<^verbatim>\<open>selection\<close>
  unless it is \<^verbatim>\<open>undefined\<close>, \<^verbatim>\<open>type\<close> (an object), and \<^verbatim>\<open>filename\<close> unless it is
  the empty string.
\<close>

definition lists_has :: "walk_state \<Rightarrow> string \<Rightarrow> bool" where
  "lists_has st name =
     (map_of (ws_lists st) name \<noteq> None
      \<or> (case ws_proto st of
           None \<Rightarrow> False
         | Some entry \<Rightarrow>
             (name = ''selection'' \<and> lr_selection entry \<noteq> None)
             \<or> name = ''type''
             \<or> (name = ''filename'' \<and> lr_filename entry \<noteq> []))
      \<or> name \<in> set object_prototype_names)"

text \<open>
  \<^verbatim>\<open>lists[name] = entry\<close>, line 815: an own entry of that name is replaced where it
  stands, a new name is added at the end, and the name \<^verbatim>\<open>__proto__\<close> reaches the
  setter of \<^verbatim>\<open>Object.prototype\<close>, which makes the entry the prototype and adds no
  own entry.
\<close>

fun assign :: "string \<Rightarrow> 'a \<Rightarrow> (string \<times> 'a) list \<Rightarrow> (string \<times> 'a) list" where
  "assign k v [] = [(k, v)]"
| "assign k v (p # ps) = (if fst p = k then (k, v) # ps else p # assign k v ps)"

definition lists_assign :: "string \<Rightarrow> list_registration \<Rightarrow> walk_state \<Rightarrow> walk_state" where
  "lists_assign name entry st =
     (if name = ''__proto__'' then st\<lparr>ws_proto := Some entry\<rparr>
      else st\<lparr>ws_lists := assign name entry (ws_lists st)\<rparr>)"

text \<open>\<^verbatim>\<open>node.arguments?.find((arg) => arg.name.value === 'name')\<close>\<close>

definition name_argument :: "directive_node \<Rightarrow> argument_node option" where
  "name_argument node =
     (case dir_arguments node of None \<Rightarrow> None | Some as \<Rightarrow> find (\<lambda>arg. arg_name arg = ''name'') as)"

definition push_error :: "list_error_kind \<Rightarrow> directive_node \<Rightarrow> string \<Rightarrow> walk_state \<Rightarrow> walk_state" where
  "push_error kind node file st =
     st\<lparr>ws_errors := ws_errors st @ [\<lparr>message = kind, directive_name = dir_name node, filepath = file\<rparr>]\<rparr>"

text \<open>
  The \<^verbatim>\<open>Directive\<close> visitor, lines 747 to 843, on \<^verbatim>\<open>lists\<close> and \<^verbatim>\<open>errors\<close>. After
  the error for a name that is registered already the visitor goes on and registers
  the list again. An exception of \<^verbatim>\<open>connectionSelection\<close> leaves the visitor, the
  visit and the function.
\<close>

definition visitDirective ::
  "config \<Rightarrow> schema_fields \<Rightarrow> string \<Rightarrow> directive_visit \<Rightarrow> walk_state \<Rightarrow> error + walk_state" where
  "visitDirective cfg schema file v st =
     (let node = dv_node v in
      if dir_name node \<in> set [listDirective cfg, paginateDirective cfg] then
        (case name_argument node of
           None \<Rightarrow>
             if dir_name node = listDirective cfg then Inr (push_error MustHaveName node file st)
             else Inr st
         | Some nameArg \<Rightarrow>
             (case arg_value nameArg of
                StringValue name \<Rightarrow>
                  (let st' = (if lists_has st name then push_error MustBeUnique node file st
                              else st)
                   in case connectionSelection schema (dv_field_def v) (dv_type v) (dv_selection v) of
                        Inl e \<Rightarrow> Inl e
                      | Inr r \<Rightarrow>
                          Inr (lists_assign name
                                 \<lparr>lr_selection = cr_selection r, lr_type = cr_type r,
                                  lr_filename = file\<rparr> st'))
              | _ \<Rightarrow> Inr (push_error MustBeString node file st)))
      else Inr st)"

text \<open>
  The \<^verbatim>\<open>Field\<close> visitor, lines 844 to 884: it classifies a field that carries the list
  directive, and changes neither \<^verbatim>\<open>lists\<close> nor \<^verbatim>\<open>errors\<close>.
\<close>

definition visitListField ::
  "config \<Rightarrow> schema_fields \<Rightarrow> list_field_visit \<Rightarrow> walk_state \<Rightarrow> error + walk_state" where
  "visitListField cfg schema v st =
     (case lv_node v of
        FieldNode n a as ds sel \<Rightarrow>
          if find_directive (listDirective cfg) ds = None then Inr st
          else (case connectionSelection schema (lv_field_def v) (lv_type v) sel of
                  Inl e \<Rightarrow> Inl e
                | Inr r \<Rightarrow> Inr st)
      | _ \<Rightarrow> Inr st)"

fun walkVisits ::
  "config \<Rightarrow> schema_fields \<Rightarrow> string \<Rightarrow> visit list \<Rightarrow> walk_state \<Rightarrow> error + walk_state" where
  "walkVisits cfg schema file [] st = Inr st"
| "walkVisits cfg schema file (VisitDirective v # vs) st =
     (case visitDirective cfg schema file v st of
        Inl e \<Rightarrow> Inl e
      | Inr st' \<Rightarrow> walkVisits cfg schema file vs st')"
| "walkVisits cfg schema file (VisitField v # vs) st =
     (case visitListField cfg schema v st of
        Inl e \<Rightarrow> Inl e
      | Inr st' \<Rightarrow> walkVisits cfg schema file vs st')"

fun walkDocuments ::
  "config \<Rightarrow> schema_fields \<Rightarrow> list_document list \<Rightarrow> walk_state \<Rightarrow> error + walk_state" where
  "walkDocuments cfg schema [] st = Inr st"
| "walkDocuments cfg schema (doc # docs) st =
     (case walkVisits cfg schema (ld_filename doc) (ld_visits doc) st of
        Inl e \<Rightarrow> Inl e
      | Inr st' \<Rightarrow> walkDocuments cfg schema docs st')"

text \<open>
  \<^verbatim>\<open>addListFragments\<close> up to line 924: the walk over every document, the \<^verbatim>\<open>throw\<close>
  of the collected errors, and the \<^verbatim>\<open>throw\<close> for an own entry of \<^verbatim>\<open>lists\<close> without
  a selection, which \<^verbatim>\<open>flatMap\<close> meets whatever the order of the entries. The
  function is asynchronous, so that each \<^verbatim>\<open>throw\<close> rejects the promise it returns.
  The result is the table of the own entries, from which the rest of the function
  generates the fragments; that generation is not modelled.
\<close>

definition addListFragments ::
  "config \<Rightarrow> schema_fields \<Rightarrow> list_document list \<Rightarrow> error + (string \<rightharpoonup> list_registration)" where
  "addListFragments cfg schema documents =
     (case walkDocuments cfg schema documents initial_walk_state of
        Inl e \<Rightarrow> Inl e
      | Inr st \<Rightarrow>
          if ws_errors st \<noteq> [] then Inl (ListErrors (ws_errors st))
          else if list_ex (\<lambda>entry. lr_selection (snd entry) = None) (ws_lists st)
          then Inl ListsMustHaveSelection
          else Inr (map_of (ws_lists st)))"

subsection \<open>The naming errors that the specification asks for\<close>

text \<open>
  The directives of the document set in visit order, each with the file of its
  document.
\<close>

fun directives_of_visits :: "string \<Rightarrow> visit list \<Rightarrow> (string \<times> directive_node) list" where
  "directives_of_visits file [] = []"
| "directives_of_visits file (VisitDirective v # vs) = (file, dv_node v) # directives_of_visits file vs"
| "directives_of_visits file (VisitField v # vs) = directives_of_visits file vs"

definition directives_of :: "list_document list \<Rightarrow> (string \<times> directive_node) list" where
  "directives_of documents =
     concat (map (\<lambda>doc. directives_of_visits (ld_filename doc) (ld_visits doc)) documents)"

text \<open>
  In the words of the specification: a list or paginate directive needs a string
  \<^verbatim>\<open>name\<close>; a missing name is an error for the list directive only; a name that is not
  a string is an error; a name that an earlier directive of the document set has
  registered is an error. \<open>seen\<close> are the names registered so far.
\<close>

fun naming_errors :: "config \<Rightarrow> string list \<Rightarrow> (string \<times> directive_node) list \<Rightarrow> list_error list" where
  "naming_errors cfg seen [] = []"
| "naming_errors cfg seen ((file, node) # rest) =
     (if dir_name node = listDirective cfg \<or> dir_name node = paginateDirective cfg then
        (case name_argument node of
           None \<Rightarrow>
             (if dir_name node = listDirective cfg
              then [\<lparr>message = MustHaveName, directive_name = dir_name node, filepath = file\<rparr>]
              else []) @ naming_errors cfg seen rest
         | Some nameArg \<Rightarrow>
             (case arg_value nameArg of
                StringValue name \<Rightarrow>
                  (if name \<in> set seen
                   then [\<lparr>message = MustBeUnique, directive_name = dir_name node, filepath = file\<rparr>]
                   else []) @ naming_errors cfg (name # seen) rest
              | _ \<Rightarrow>
                  \<lparr>message = MustBeString, directive_name = dir_name node, filepath = file\<rparr>
                    # naming_errors cfg seen rest))
      else naming_errors cfg seen rest)"

text \<open>The names that the directives register, after those of \<open>seen\<close>.\<close>

fun registered_names :: "config \<Rightarrow> string list \<Rightarrow> (string \<times> directive_node) list \<Rightarrow> string list" where
  "registered_names cfg seen [] = seen"
| "registered_names cfg seen ((file, node) # rest) =
     (if dir_name node = listDirective cfg \<or> dir_name node = paginateDirective cfg then
        (case name_argument node of
           None \<Rightarrow> registered_names cfg seen rest
         | Some nameArg \<Rightarrow>
             (case arg_value nameArg of
                StringValue name \<Rightarrow> registered_names cfg (name # seen) rest
              | _ \<Rightarrow> registered_names cfg seen rest))
      else registered_names cfg seen rest)"

text \<open>
  The invariant of the walk: \<^verbatim>\<open>Object.prototype\<close> is the prototype and the own entries
  are those of the names registered so far.
\<close>

definition registry_is :: "walk_state \<Rightarrow> string list \<Rightarrow> bool" where
  "registry_is st seen =
     (ws_proto st = None \<and> (\<forall>n. (map_of (ws_lists st) n = None) = (n \<notin> set seen)))"

text \<open>
  The name that a directive registers, and the document sets none of whose list names
  is the name of a property of \<^verbatim>\<open>Object.prototype\<close>.
\<close>

definition registers :: "config \<Rightarrow> directive_node \<Rightarrow> string option" where
  "registers cfg node =
     (if dir_name node = listDirective cfg \<or> dir_name node = paginateDirective cfg then
        (case name_argument node of
           None \<Rightarrow> None
         | Some nameArg \<Rightarrow> (case arg_value nameArg of StringValue name \<Rightarrow> Some name | _ \<Rightarrow> None))
      else None)"

definition own_name :: "config \<Rightarrow> directive_node \<Rightarrow> bool" where
  "own_name cfg node =
     (case registers cfg node of None \<Rightarrow> True | Some name \<Rightarrow> name \<notin> set object_prototype_names)"

definition own_names :: "config \<Rightarrow> (string \<times> directive_node) list \<Rightarrow> bool" where
  "own_names cfg ds = list_all (\<lambda>d. own_name cfg (snd d)) ds"

subsection \<open>An example schema and example documents\<close>

text \<open>
  \<^verbatim>\<open>type User { id: ID!, friends(first: Int, after: String): UserConnection }\<close>,
  \<^verbatim>\<open>type UserConnection { edges: [UserEdge] }\<close>,
  \<^verbatim>\<open>type UserEdge { cursor: String, node: User }\<close>,
  \<^verbatim>\<open>type Query { users: [User] }\<close>.
\<close>

definition user_schema :: schema_fields where
  "user_schema =
     [''Query'' \<mapsto> [''users'' \<mapsto> \<lparr>fd_args = [], fd_type = ListType (NamedType ''User'')\<rparr>],
      ''User'' \<mapsto>
        [''id'' \<mapsto> \<lparr>fd_args = [], fd_type = NonNullType (NamedType ''ID'')\<rparr>,
         ''friends'' \<mapsto>
           \<lparr>fd_args = [(''first'', NamedType ''Int''), (''after'', NamedType ''String'')],
            fd_type = NamedType ''UserConnection''\<rparr>],
      ''UserConnection'' \<mapsto>
        [''edges'' \<mapsto> \<lparr>fd_args = [], fd_type = ListType (NamedType ''UserEdge'')\<rparr>],
      ''UserEdge'' \<mapsto>
        [''cursor'' \<mapsto> \<lparr>fd_args = [], fd_type = NamedType ''String''\<rparr>,
         ''node'' \<mapsto> \<lparr>fd_args = [], fd_type = NamedType ''User''\<rparr>]]"

text \<open>
  What the visit hands to the visitors for the field \<^verbatim>\<open>users { id }\<close> of the query
  type with one directive: the field, its directive, and the field \<^verbatim>\<open>id\<close>.
\<close>

definition plain_users :: field_def where
  "plain_users = \<lparr>fd_args = [], fd_type = ListType (NamedType ''User'')\<rparr>"

definition id_field :: selection_node where
  "id_field = FieldNode ''id'' None (Some []) (Some []) None"

definition id_visit :: visit where
  "id_visit = VisitField
     \<lparr>lv_node = id_field,
      lv_field_def = \<lparr>fd_args = [], fd_type = NonNullType (NamedType ''ID'')\<rparr>,
      lv_type = ''User''\<rparr>"

definition tagged :: "string \<Rightarrow> argument_node list \<Rightarrow> visit list" where
  "tagged directive as =
     [VisitField
        \<lparr>lv_node = FieldNode ''users'' None (Some [])
           (Some [\<lparr>dir_name = directive, dir_arguments = Some as\<rparr>]) (Some [id_field]),
         lv_field_def = plain_users, lv_type = ''Query''\<rparr>,
      VisitDirective
        \<lparr>dv_node = \<lparr>dir_name = directive, dir_arguments = Some as\<rparr>,
         dv_field_def = plain_users, dv_type = ''User'',
         dv_selection = Some [id_field]\<rparr>,
      id_visit]"

text \<open>
  \<^verbatim>\<open>users @list { id }\<close> and \<^verbatim>\<open>users @list(name: "Friends") { id }\<close> in one file;
  \<^verbatim>\<open>users @list(name: "Friends") { id }\<close>, \<^verbatim>\<open>users @paginate { id }\<close> and
  \<^verbatim>\<open>users @list(name: 5) { id }\<close> in another.
\<close>

definition users_document :: list_document where
  "users_document =
     \<lparr>ld_filename = ''users.graphql'',
      ld_visits = tagged ''list'' []
                @ tagged ''list'' [\<lparr>arg_name = ''name'', arg_value = StringValue ''Friends''\<rparr>]\<rparr>"

definition friends_list_document :: list_document where
  "friends_list_document =
     \<lparr>ld_filename = ''friends.graphql'',
      ld_visits = tagged ''list'' [\<lparr>arg_name = ''name'', arg_value = StringValue ''Friends''\<rparr>]
                @ tagged ''paginate'' []
                @ tagged ''list'' [\<lparr>arg_name = ''name'', arg_value = IntValue ''5''\<rparr>]\<rparr>"

text \<open>
  \<^verbatim>\<open>users @list { id }\<close> alone in a file, and in a second file
  \<^verbatim>\<open>friends @list(name: "F") { edges { cursor } }\<close> on the type \<^verbatim>\<open>User\<close>, whose
  selection of \<^verbatim>\<open>edges\<close> has no \<^verbatim>\<open>node\<close>.
\<close>

definition nameless_document :: list_document where
  "nameless_document = \<lparr>ld_filename = ''nameless.graphql'', ld_visits = tagged ''list'' []\<rparr>"

definition friends_def :: field_def where
  "friends_def =
     \<lparr>fd_args = [(''first'', NamedType ''Int''), (''after'', NamedType ''String'')],
      fd_type = NamedType ''UserConnection''\<rparr>"

definition cursor_field :: selection_node where
  "cursor_field = FieldNode ''cursor'' None (Some []) (Some []) None"

definition edges_field :: selection_node where
  "edges_field = FieldNode ''edges'' None (Some []) (Some []) (Some [cursor_field])"

definition edges_document :: list_document where
  "edges_document =
     \<lparr>ld_filename = ''edges.graphql'',
      ld_visits =
        [VisitField
           \<lparr>lv_node = FieldNode ''friends'' None (Some [])
              (Some [\<lparr>dir_name = ''list'',
                      dir_arguments = Some [\<lparr>arg_name = ''name'', arg_value = StringValue ''F''\<rparr>]\<rparr>])
              (Some [edges_field]),
            lv_field_def = friends_def, lv_type = ''User''\<rparr>,
         VisitDirective
           \<lparr>dv_node = \<lparr>dir_name = ''list'',
                        dir_arguments = Some [\<lparr>arg_name = ''name'', arg_value = StringValue ''F''\<rparr>]\<rparr>,
            dv_field_def = friends_def, dv_type = ''UserConnection'',
            dv_selection = Some [edges_field]\<rparr>,
         VisitField
           \<lparr>lv_node = edges_field,
            lv_field_def = \<lparr>fd_args = [], fd_type = ListType (NamedType ''UserEdge'')\<rparr>,
            lv_type = ''UserConnection''\<rparr>,
         VisitField
           \<lparr>lv_node = cursor_field,
            lv_field_def = \<lparr>fd_args = [], fd_type = NamedType ''String''\<rparr>,
            lv_type = ''UserEdge''\<rparr>]\<rparr>"

text \<open>\<^verbatim>\<open>users @list(name: 5) { id }\<close> in a third file.\<close>

definition number_document :: list_document where
  "number_document =
     \<lparr>ld_filename = ''number.graphql'',
      ld_visits = tagged ''list'' [\<lparr>arg_name = ''name'', arg_value = IntValue ''5''\<rparr>]\<rparr>"

text \<open>\<^verbatim>\<open>users @list(name: "constructor") { id }\<close>, the only directive of its document set.\<close>

definition constructor_document :: list_document where
  "constructor_document =
     \<lparr>ld_filename = ''constructor.graphql'',
      ld_visits = tagged ''list'' [\<lparr>arg_name = ''name'', arg_value = StringValue ''constructor''\<rparr>]\<rparr>"

section \<open>The selection compiler: masked fields\<close>

text \<open>
  Modelled from the spec: the selection compiler (the generator of the artifacts) is
  not among the sources; only its tests are (\<^verbatim>\<open>artifacts.test.ts\<close>). The spec (sections
  3 and 4.3) has it walk a selection set recursively and merge the sibling occurrences
  of one response alias, from direct selection and from fragment spreads, into one node
  whose \<^verbatim>\<open>masked\<close> flag is the logical AND of "not directly selected" across all the
  appearances merged at that level. Of a compiled node only the flag and the nested
  fields are modelled.
\<close>

datatype compiled_field =
  CompiledField (cf_masked: bool) (cf_fields: "(string \<times> compiled_field) list")

text \<open>
  Modelled from the spec: the fragment definitions of the document set, by name, which
  the compiler looks up at a fragment spread.
\<close>

type_synonym fragments = "string \<rightharpoonup> selection_node list"

text \<open>
  Modelled from the spec: the compiler's walk of one selection set (not among the
  sources), as the appearances of fields at one level: the response name,
  whether the appearance is a direct selection, and the selection set under it. The
  fields of an inline fragment belong to the level of the inline fragment; the fields
  of a spread fragment are appearances that are not direct. Fragments may refer to each
  other, so the number of nested spreads is bounded, and \<open>None\<close> is "bound reached".
\<close>

fun appearances ::
  "fragments \<Rightarrow> nat \<Rightarrow> bool \<Rightarrow> selection_node list
     \<Rightarrow> (string \<times> bool \<times> selection_node list) list option" where
  "appearances frags fuel direct [] = Some []"
| "appearances frags fuel direct (FieldNode n a as ds sel # rest) =
     (case appearances frags fuel direct rest of
        None \<Rightarrow> None
      | Some occs \<Rightarrow>
          Some ((response_name (FieldNode n a as ds sel), direct,
                 (case sel of None \<Rightarrow> [] | Some sels \<Rightarrow> sels)) # occs))"
| "appearances frags fuel direct (InlineFragmentNode t sels # rest) =
     (case appearances frags fuel direct sels of
        None \<Rightarrow> None
      | Some occs \<Rightarrow>
          (case appearances frags fuel direct rest of
             None \<Rightarrow> None
           | Some occs' \<Rightarrow> Some (occs @ occs')))"
| "appearances frags fuel direct (FragmentSpreadNode name ds # rest) =
     (case fuel of
        0 \<Rightarrow> None
      | Suc k \<Rightarrow>
          (case (case frags name of None \<Rightarrow> Some [] | Some sels \<Rightarrow> appearances frags k False sels) of
             None \<Rightarrow> None
           | Some occs \<Rightarrow>
               (case appearances frags fuel direct rest of
                  None \<Rightarrow> None
                | Some occs' \<Rightarrow> Some (occs @ occs'))))"

text \<open>
  Modelled from the spec: the compiler's merge of sibling occurrences (not among the
  sources). A level of the compiled tree merges several selection sets, each with the
  flag "reached by direct selections only".
\<close>

fun level_appearances ::
  "fragments \<Rightarrow> nat \<Rightarrow> (bool \<times> selection_node list) list
     \<Rightarrow> (string \<times> bool \<times> selection_node list) list option" where
  "level_appearances frags fuel [] = Some []"
| "level_appearances frags fuel ((direct, sels) # rest) =
     (case appearances frags fuel direct sels of
        None \<Rightarrow> None
      | Some occs \<Rightarrow>
          (case level_appearances frags fuel rest of
             None \<Rightarrow> None
           | Some occs' \<Rightarrow> Some (occs @ occs')))"

text \<open>
  Modelled from the spec: the \<^verbatim>\<open>masked\<close> flag that the compiler (not among the sources)
  writes, the AND of "not directly selected" across the appearances of \<open>n\<close>.
\<close>

definition masked_flag :: "string \<Rightarrow> (string \<times> bool \<times> selection_node list) list \<Rightarrow> bool" where
  "masked_flag n occs = list_all (\<lambda>occ. \<not> fst (snd occ)) (filter (\<lambda>occ. fst occ = n) occs)"

text \<open>
  Modelled from the spec: the selection sets under the appearances of \<open>n\<close>, which the
  compiler (not among the sources) merges one level down. Then the compiler itself: one
  node for each response name of a level, in the order of first appearance; the first
  argument bounds the depth of the tree and of the nested spreads.
\<close>

definition merged_children ::
  "string \<Rightarrow> (string \<times> bool \<times> selection_node list) list \<Rightarrow> (bool \<times> selection_node list) list" where
  "merged_children n occs = map snd (filter (\<lambda>occ. fst occ = n) occs)"

fun compile_level ::
  "fragments \<Rightarrow> nat \<Rightarrow> (bool \<times> selection_node list) list
     \<Rightarrow> (string \<times> compiled_field) list option" where
  "compile_level frags 0 level = None"
| "compile_level frags (Suc fuel) level =
     (case level_appearances frags fuel level of
        None \<Rightarrow> None
      | Some occs \<Rightarrow>
          those (map (\<lambda>n.
              (case compile_level frags fuel (merged_children n occs) of
                 None \<Rightarrow> None
               | Some sub \<Rightarrow> Some (n, CompiledField (masked_flag n occs) sub)))
            (remdups (map fst occs))))"

text \<open>
  Modelled from the spec: the compiled selection of the selection set of a document,
  whose fields are all selected directly.
\<close>

definition compile_selection ::
  "fragments \<Rightarrow> nat \<Rightarrow> selection_node list \<Rightarrow> (string \<times> compiled_field) list option" where
  "compile_selection frags fuel sels = compile_level frags fuel [(True, sels)]"

text \<open>The node of a compiled tree at a path of response names from the root.\<close>

fun node_at :: "(string \<times> compiled_field) list \<Rightarrow> string list \<Rightarrow> compiled_field option" where
  "node_at tree [] = None"
| "node_at tree [n] = map_of tree n"
| "node_at tree (n # m # rest) =
     (case map_of tree n of None \<Rightarrow> None | Some node \<Rightarrow> node_at (cf_fields node) (m # rest))"

subsection \<open>Direct selection, read off the document\<close>

text \<open>
  In the words of the specification, a field is directly selected at a level unless
  it is introduced only via fragment spreads. On the document alone, with no reference
  to the compiler: the fields that a selection set selects directly, each with the
  selection set under it, are its field selections and those of its inline fragments,
  and not those of the fragments it spreads; and the field at a path of response names
  is directly selected when the document reaches it by direct selections all the way
  from its own selection set.
\<close>

fun direct_fields :: "selection_node list \<Rightarrow> (string \<times> selection_node list) list" where
  "direct_fields [] = []"
| "direct_fields (FieldNode n a as ds sel # rest) =
     (response_name (FieldNode n a as ds sel), (case sel of None \<Rightarrow> [] | Some sels \<Rightarrow> sels))
       # direct_fields rest"
| "direct_fields (InlineFragmentNode t sels # rest) = direct_fields sels @ direct_fields rest"
| "direct_fields (FragmentSpreadNode name ds # rest) = direct_fields rest"

fun direct_path :: "selection_node list \<Rightarrow> string list \<Rightarrow> bool" where
  "direct_path sels [] = True"
| "direct_path sels (n # rest) =
     list_ex (\<lambda>occ. fst occ = n \<and> direct_path (snd occ) rest) (direct_fields sels)"

text \<open>The same for a level that merges several selection sets.\<close>

definition level_direct_path :: "(bool \<times> selection_node list) list \<Rightarrow> string list \<Rightarrow> bool" where
  "level_direct_path level route = list_ex (\<lambda>part. fst part \<and> direct_path (snd part) route) level"

text \<open>
  The documents of the two tests on overlapping selections:
  \<^verbatim>\<open>fragment A on User { firstName }\<close> with \<^verbatim>\<open>query { user { firstName ...A } }\<close>, and
  \<^verbatim>\<open>fragment A on User { friends { id } }\<close> with
  \<^verbatim>\<open>query { user { friends { firstName } ...A } }\<close>.
\<close>

definition leaf :: "string \<Rightarrow> selection_node" where
  "leaf n = FieldNode n None None None None"

definition overlapping_fragments :: fragments where
  "overlapping_fragments = [''A'' \<mapsto> [leaf ''firstName'']]"

definition overlapping_query :: "selection_node list" where
  "overlapping_query =
     [FieldNode ''user'' None None None
        (Some [leaf ''firstName'', FragmentSpreadNode ''A'' None])]"

definition nested_fragments :: fragments where
  "nested_fragments = [''A'' \<mapsto> [FieldNode ''friends'' None None None (Some [leaf ''id''])]]"

definition nested_query :: "selection_node list" where
  "nested_query =
     [FieldNode ''user'' None None None
        (Some [FieldNode ''friends'' None None None (Some [leaf ''firstName'']),
               FragmentSpreadNode ''A'' None])]"

text \<open>
  \<^verbatim>\<open>fragment A on User { friends { id } }\<close> with \<^verbatim>\<open>query { user { ...A } }\<close>: every
  field under \<^verbatim>\<open>user\<close> comes from the spread.
\<close>

definition spread_only_query :: "selection_node list" where
  "spread_only_query = [FieldNode ''user'' None None None (Some [FragmentSpreadNode ''A'' None])]"

section \<open>Properties of the scalar walkers\<close>


lemma mapE_raises:
  "x \<in> set xs \<Longrightarrow> f x = Inl e \<Longrightarrow> \<exists>e'. mapE f xs = Inl e'"
  by (induction xs) (auto split: sum.splits)

lemma mapE_error_source:
  "mapE f xs = Inl e \<Longrightarrow> \<exists>x \<in> set xs. f x = Inl e"
  by (induction xs) (auto split: sum.splits)

















lemma marshalSelection_object:
  "marshalSelection config selection (JObj es) =
     (case mapE (marshalField config selection) es of Inl e \<Rightarrow> Inl e | Inr ys \<Rightarrow> Inr (JObj ys))"
  unfolding marshalField_def by simp

lemma unmarshalSelection_object:
  "unmarshalSelection config selection (JObj es) =
     (case mapE (unmarshalField config selection) es of Inl e \<Rightarrow> Inl e | Inr ys \<Rightarrow> Inr (JObj ys))"
  unfolding unmarshalField_def by simp

lemma marshalSelection_string:
  "marshalSelection config selection (JStr s) =
     (case mapE (marshalField config selection) (object_entries (JStr s)) of
        Inl e \<Rightarrow> Inl e | Inr ys \<Rightarrow> Inr (JObj ys))"
  unfolding marshalField_def by simp

lemma unmarshalSelection_string:
  "unmarshalSelection config selection (JStr s) =
     (case mapE (unmarshalField config selection) (object_entries (JStr s)) of
        Inl e \<Rightarrow> Inl e | Inr ys \<Rightarrow> Inr (JObj ys))"
  unfolding unmarshalField_def by simp









text \<open>
  An object with a field that the selection neither lists nor inherits never comes back
  from either walker: destructuring \<^verbatim>\<open>selection[fieldName]\<close> throws (unless an
  earlier field of the object has thrown already).
\<close>

lemma marshalSelection_absent_field:
  assumes "(k, v) \<in> set es" and "selection_entry selection k = Missing"
  shows "\<exists>e. marshalSelection config selection (JObj es) = Inl e"
proof -
  have "marshalField config selection (k, v) = Inl TypeError"
    using assms(2) by (simp add: marshalField_def)
  from mapE_raises[of "(k, v)" es "marshalField config selection", OF assms(1) this]
  show ?thesis
    by (auto simp: marshalSelection_object simp del: marshalSelection.simps)
qed

lemma unmarshalSelection_absent_field:
  assumes "(k, v) \<in> set es" and "selection_entry selection k = Missing"
  shows "\<exists>e. unmarshalSelection config selection (JObj es) = Inl e"
proof -
  have "unmarshalField config selection (k, v) = Inl TypeError"
    using assms(2) by (simp add: unmarshalField_def)
  from mapE_raises[of "(k, v)" es "unmarshalField config selection", OF assms(1) this]
  show ?thesis
    by (auto simp: unmarshalSelection_object simp del: unmarshalSelection.simps)
qed

text \<open>
  C2 (fails on the code). The claim: a field of the data whose name is absent from the
  selection is returned unchanged and raises nothing. The code: for the selection
  \<^verbatim>\<open>{id: {type: "ID"}}\<close> and the data \<^verbatim>\<open>{id: "1", extra: 5}\<close> both walkers throw a
  TypeError at the field \<^verbatim>\<open>extra\<close>, where \<^verbatim>\<open>const { type, fields } = selection[fieldName]\<close>
  destructures \<^verbatim>\<open>undefined\<close>; the pass-through that the comment under that line
  announces is never reached.
\<close>

theorem absent_field_raises_TypeError:
  "marshalSelection \<lparr>scalars = None\<rparr> (Selection [(''id'', FieldSel (Some ''ID'') None)])
     (JObj [(''id'', JStr ''1''), (''extra'', JNum 5)]) = Inl TypeError
   \<and> unmarshalSelection \<lparr>scalars = None\<rparr> (Selection [(''id'', FieldSel (Some ''ID'') None)])
     (JObj [(''id'', JStr ''1''), (''extra'', JNum 5)]) = Inl TypeError"
  by (simp add: marshalScalar_def unmarshalScalar_def scalar_of_def selection_entry_def
        get_property_def object_prototype_names_def)

text \<open>
  The marshaling walker raises for a configured scalar without \<^verbatim>\<open>marshal\<close>; the
  unmarshaling walker looks at \<^verbatim>\<open>unmarshal\<close> only when \<^verbatim>\<open>marshal\<close> is there.
\<close>

lemma marshalScalar_missing:
  "scalar_of config t = Own sc \<Longrightarrow> marshal sc = None \<Longrightarrow>
   marshalScalar config t v = Inl (MissingMarshal t)"
  by (simp add: marshalScalar_def)

lemma unmarshalScalar_missing:
  "scalar_of config t = Own sc \<Longrightarrow> marshal sc = Some m \<Longrightarrow> unmarshal sc = None \<Longrightarrow>
   unmarshalScalar config t v = Inl (MissingUnmarshal t)"
  by (simp add: unmarshalScalar_def)

lemma unmarshalScalar_without_marshal:
  "scalar_of config t = Own sc \<Longrightarrow> marshal sc = None \<Longrightarrow> unmarshalScalar config t v = Inr v"
  by (simp add: unmarshalScalar_def)

lemma unconfigured_scalar_passes:
  "scalar_of config t = Missing \<Longrightarrow>
   marshalScalar config t v = Inr v \<and> unmarshalScalar config t v = Inr v"
  by (simp add: marshalScalar_def unmarshalScalar_def)

text \<open>
  What the walkers can raise: a TypeError, or the error of a scalar that lacks its
  function (for the marshaling walker also of a type that the table of scalars
  inherits), and the latter only out of the call for a field of that type.
\<close>

lemma marshalScalar_error:
  "marshalScalar config t v = Inl e \<Longrightarrow>
     e = MissingMarshal t
     \<and> (scalar_of config t = Inherited \<or> (\<exists>sc. scalar_of config t = Own sc \<and> marshal sc = None))"
  by (auto simp: marshalScalar_def split: property.splits option.splits jsval.splits)

lemma unmarshalScalar_error:
  "unmarshalScalar config t v = Inl e \<Longrightarrow>
     e = MissingUnmarshal t
     \<and> (\<exists>sc m. scalar_of config t = Own sc \<and> marshal sc = Some m \<and> unmarshal sc = None)"
  by (auto simp: unmarshalScalar_def split: property.splits option.splits jsval.splits)

lemma marshalField_error:
  assumes "marshalField config selection x = Inl e"
    and "\<And>f t sub. selection_entry selection (fst x) = Own f \<Longrightarrow> fs_type f = Some t \<Longrightarrow>
           t \<noteq> [] \<Longrightarrow> fs_fields f = Some sub \<Longrightarrow>
           marshalSelection config sub (snd x) = Inl e \<Longrightarrow>
           e = TypeError \<or> (\<exists>t. e = MissingMarshal t \<and> (scalar_of config t = Inherited \<or> (\<exists>sc. scalar_of config t = Own sc \<and> marshal sc = None)))"
  shows "e = TypeError \<or> (\<exists>t. e = MissingMarshal t \<and> (scalar_of config t = Inherited \<or> (\<exists>sc. scalar_of config t = Own sc \<and> marshal sc = None)))"
proof (cases "selection_entry selection (fst x)")
  case Missing
  with assms(1) show ?thesis by (simp add: marshalField_def)
next
  case Inherited
  with assms(1) show ?thesis by (simp add: marshalField_def)
next
  case (Own f)
  show ?thesis
  proof (cases "fs_type f")
    case None
    with assms(1) Own show ?thesis by (simp add: marshalField_def)
  next
    case t: (Some t)
    show ?thesis
    proof (cases "t = []")
      case True
      with assms(1) Own t show ?thesis by (simp add: marshalField_def)
    next
      case False
      show ?thesis
      proof (cases "fs_fields f")
        case None
        with assms(1) Own t False have "marshalScalar config t (snd x) = Inl e"
          by (simp add: marshalField_def split: sum.splits)
        from marshalScalar_error[OF this] show ?thesis by blast
      next
        case sub: (Some sub)
        with assms(1) Own t False have "marshalSelection config sub (snd x) = Inl e"
          by (simp add: marshalField_def split: sum.splits)
        from assms(2)[OF Own t False sub this] show ?thesis .
      qed
    qed
  qed
qed

lemma marshalSelection_error:
  "marshalSelection config selection d = Inl e \<Longrightarrow>
     e = TypeError \<or> (\<exists>t. e = MissingMarshal t \<and> (scalar_of config t = Inherited \<or> (\<exists>sc. scalar_of config t = Own sc \<and> marshal sc = None)))"
proof (induction config selection d rule: marshalSelection_induct)
  case (Array config selection xs)
  from Array.prems have "mapE (marshalSelection config selection) xs = Inl e"
    by (simp split: sum.splits)
  from mapE_error_source[OF this] Array.IH show ?case by blast
next
  case (Str config selection s)
  from Str.prems have "mapE (marshalField config selection) (object_entries (JStr s)) = Inl e"
    unfolding marshalSelection_string by (simp split: sum.splits del: object_entries.simps)
  from mapE_error_source[OF this] obtain x where x: "x \<in> set (object_entries (JStr s))"
    and fx: "marshalField config selection x = Inl e" by blast
  show ?case
    by (rule marshalField_error[OF fx]) (rule Str.IH[OF x])
next
  case (Obj config selection es)
  from Obj.prems have "mapE (marshalField config selection) es = Inl e"
    unfolding marshalSelection_object by (simp split: sum.splits)
  from mapE_error_source[OF this] obtain x where x: "x \<in> set (object_entries (JObj es))"
    and fx: "marshalField config selection x = Inl e" by auto
  show ?case
    by (rule marshalField_error[OF fx]) (rule Obj.IH[OF x])
qed simp_all

lemma unmarshalField_error:
  assumes "unmarshalField config selection x = Inl e"
    and "\<And>f t sub. selection_entry selection (fst x) = Own f \<Longrightarrow> fs_type f = Some t \<Longrightarrow>
           t \<noteq> [] \<Longrightarrow> fs_fields f = Some sub \<Longrightarrow>
           unmarshalSelection config sub (snd x) = Inl e \<Longrightarrow>
           e = TypeError \<or> (\<exists>t. e = MissingUnmarshal t \<and> (\<exists>sc m. scalar_of config t = Own sc \<and> marshal sc = Some m \<and> unmarshal sc = None))"
  shows "e = TypeError \<or> (\<exists>t. e = MissingUnmarshal t \<and> (\<exists>sc m. scalar_of config t = Own sc \<and> marshal sc = Some m \<and> unmarshal sc = None))"
proof (cases "selection_entry selection (fst x)")
  case Missing
  with assms(1) show ?thesis by (simp add: unmarshalField_def)
next
  case Inherited
  with assms(1) show ?thesis by (simp add: unmarshalField_def)
next
  case (Own f)
  show ?thesis
  proof (cases "fs_type f")
    case None
    with assms(1) Own show ?thesis by (simp add: unmarshalField_def)
  next
    case t: (Some t)
    show ?thesis
    proof (cases "t = []")
      case True
      with assms(1) Own t show ?thesis by (simp add: unmarshalField_def)
    next
      case False
      show ?thesis
      proof (cases "fs_fields f")
        case None
        with assms(1) Own t False have "unmarshalScalar config t (snd x) = Inl e"
          by (simp add: unmarshalField_def split: sum.splits)
        from unmarshalScalar_error[OF this] show ?thesis by blast
      next
        case sub: (Some sub)
        with assms(1) Own t False have "unmarshalSelection config sub (snd x) = Inl e"
          by (simp add: unmarshalField_def split: sum.splits)
        from assms(2)[OF Own t False sub this] show ?thesis .
      qed
    qed
  qed
qed

lemma unmarshalSelection_error:
  "unmarshalSelection config selection d = Inl e \<Longrightarrow>
     e = TypeError \<or> (\<exists>t. e = MissingUnmarshal t \<and> (\<exists>sc m. scalar_of config t = Own sc \<and> marshal sc = Some m \<and> unmarshal sc = None))"
proof (induction config selection d rule: unmarshalSelection_induct)
  case (Array config selection xs)
  from Array.prems have "mapE (unmarshalSelection config selection) xs = Inl e"
    by (simp split: sum.splits)
  from mapE_error_source[OF this] Array.IH show ?case by blast
next
  case (Str config selection s)
  from Str.prems have "mapE (unmarshalField config selection) (object_entries (JStr s)) = Inl e"
    unfolding unmarshalSelection_string by (simp split: sum.splits del: object_entries.simps)
  from mapE_error_source[OF this] obtain x where x: "x \<in> set (object_entries (JStr s))"
    and fx: "unmarshalField config selection x = Inl e" by blast
  show ?case
    by (rule unmarshalField_error[OF fx]) (rule Str.IH[OF x])
next
  case (Obj config selection es)
  from Obj.prems have "mapE (unmarshalField config selection) es = Inl e"
    unfolding unmarshalSelection_object by (simp split: sum.splits)
  from mapE_error_source[OF this] obtain x where x: "x \<in> set (object_entries (JObj es))"
    and fx: "unmarshalField config selection x = Inl e" by auto
  show ?case
    by (rule unmarshalField_error[OF fx]) (rule Obj.IH[OF x])
qed simp_all

text \<open>
  C4 (fails on the code). The claim: a value whose field type is a configured scalar
  that lacks the function of the current direction raises an error. The code: with the
  scalar \<^verbatim>\<open>DateTime\<close> configured without \<^verbatim>\<open>marshal\<close> and without \<^verbatim>\<open>unmarshal\<close>,
  unmarshaling \<^verbatim>\<open>{createdAt: 5}\<close> over \<^verbatim>\<open>{createdAt: {type: "DateTime"}}\<close> returns the
  data as it is and raises nothing, because the guard of \<^verbatim>\<open>unmarshalSelection\<close> tests
  \<^verbatim>\<open>config.scalars?.[type]?.marshal\<close>; marshaling the same data raises, as the claim
  says.
\<close>

theorem unmarshal_missing_function_not_raised:
  "unmarshalSelection
     \<lparr>scalars = Some [''DateTime'' \<mapsto> \<lparr>marshal = None, unmarshal = None\<rparr>]\<rparr>
     (Selection [(''createdAt'', FieldSel (Some ''DateTime'') None)])
     (JObj [(''createdAt'', JNum 5)]) = Inr (JObj [(''createdAt'', JNum 5)])
   \<and> marshalSelection
     \<lparr>scalars = Some [''DateTime'' \<mapsto> \<lparr>marshal = None, unmarshal = None\<rparr>]\<rparr>
     (Selection [(''createdAt'', FieldSel (Some ''DateTime'') None)])
     (JObj [(''createdAt'', JNum 5)]) = Inl (MissingMarshal ''DateTime'')"
  by (simp add: marshalScalar_def unmarshalScalar_def scalar_of_def selection_entry_def
        get_property_def)


















text \<open>
  C10. For every input value that is neither \<^verbatim>\<open>null\<close> nor \<^verbatim>\<open>undefined\<close> and every
  artifact without an input descriptor, \<^verbatim>\<open>marshalInputs\<close> returns the input value
  itself: no converter is applied and there is no recursive call (one unit of the
  depth bound, the call itself, is enough, whatever the configuration and root type).
\<close>

theorem marshalInputs_no_descriptor:
  assumes "inp \<noteq> JNull" and "inp \<noteq> JUndefined" and "input artifact = None"
  shows "marshalInputs (Suc n) artifact config inp rootType = Some (Inr inp)"
  using assms by simp

theorem marshalInputs_no_descriptor_witness:
  "JObj [(''date'', JNum 7)] \<noteq> JNull \<and> JObj [(''date'', JNum 7)] \<noteq> JUndefined
   \<and> input \<lparr>input = None\<rparr> = None
   \<and> marshalInputs (Suc 0) \<lparr>input = None\<rparr>
        \<lparr>scalars = Some [''DateTime'' \<mapsto> \<lparr>marshal = Some (\<lambda>v. JNull), unmarshal = None\<rparr>]\<rparr>
        (JObj [(''date'', JNum 7)]) ''@root''
      = Some (Inr (JObj [(''date'', JNum 7)]))"
  using marshalInputs_no_descriptor
    [of "JObj [(''date'', JNum 7)]" "\<lparr>input = None\<rparr>" 0
        "\<lparr>scalars = Some [''DateTime'' \<mapsto> \<lparr>marshal = Some (\<lambda>v. JNull), unmarshal = None\<rparr>]\<rparr>"
        "''@root''"]
  by simp

section \<open>Properties of the pagination transform\<close>

text \<open>
  A tagged field with a selection set sets the flags of the document to the flags of
  that field; the visitor leaves a tagged field without a selection set alone (lines
  82 to 84).
\<close>

lemma visitField_tagged:
  assumes "fv_node v = FieldNode n a as ds (Some sel)"
    and "find_directive (paginateDirective cfg) ds \<noteq> None"
  shows "flags (visitField cfg st v) = paginationFlags (fv_schema_args v) (passed_argument_names as)"
    and "paginated (visitField cfg st v)"
  using assms by (auto simp: visitField_def)

lemma visitField_without_selection:
  "fv_node v = FieldNode n a as ds None \<Longrightarrow> visitField cfg st v = st"
  by (simp add: visitField_def)

text \<open>
  C1 (as amended). For every paginate-tagged field that has a selection set, after the
  transform computes the PaginationFlags, for any combination of schema-declared
  arguments and call-site arguments: the two flags of each pair are equal; limit/offset
  is never enabled together with first/after or with last/before; and first/after and
  last/before are never enabled together when the call site passes \<^verbatim>\<open>first\<close> or
  \<^verbatim>\<open>last\<close>.
\<close>

theorem pagination_flags_exclusive:
  assumes "fv_node v = FieldNode n a as ds (Some sel)"
    and "find_directive (paginateDirective cfg) ds \<noteq> None"
  shows "first_enabled (flags (visitField cfg st v)) = after_enabled (flags (visitField cfg st v))
   \<and> last_enabled (flags (visitField cfg st v)) = before_enabled (flags (visitField cfg st v))
   \<and> limit_enabled (flags (visitField cfg st v)) = offset_enabled (flags (visitField cfg st v))
   \<and> \<not> (limit_enabled (flags (visitField cfg st v))
          \<and> first_enabled (flags (visitField cfg st v)))
   \<and> \<not> (limit_enabled (flags (visitField cfg st v))
          \<and> last_enabled (flags (visitField cfg st v)))
   \<and> (''first'' \<in> set (passed_argument_names as) \<or> ''last'' \<in> set (passed_argument_names as)
        \<longrightarrow> \<not> (first_enabled (flags (visitField cfg st v))
                 \<and> last_enabled (flags (visitField cfg st v))))"
  unfolding visitField_tagged(1)[OF assms] paginationFlags_def Let_def by auto

theorem pagination_flags_exclusive_witness:
  "fv_node friends_first_visit = FieldNode ''friends'' None
      (Some [\<lparr>arg_name = ''first'', arg_value = IntValue ''10''\<rparr>])
      (Some [\<lparr>dir_name = ''paginate'', dir_arguments = Some []\<rparr>])
      (Some [FieldNode ''id'' None None None None])
   \<and> find_directive (paginateDirective \<lparr>paginateDirective = ''paginate'', listDirective = ''list''\<rparr>)
        (Some [\<lparr>dir_name = ''paginate'', dir_arguments = Some []\<rparr>]) \<noteq> None
   \<and> ''first'' \<in> set (passed_argument_names
        (Some [\<lparr>arg_name = ''first'', arg_value = IntValue ''10''\<rparr>]))
   \<and> first_enabled (flags (visitField \<lparr>paginateDirective = ''paginate'', listDirective = ''list''\<rparr>
        initial_paginate_state friends_first_visit))
   \<and> after_enabled (flags (visitField \<lparr>paginateDirective = ''paginate'', listDirective = ''list''\<rparr>
        initial_paginate_state friends_first_visit))
   \<and> \<not> last_enabled (flags (visitField \<lparr>paginateDirective = ''paginate'', listDirective = ''list''\<rparr>
        initial_paginate_state friends_first_visit))
   \<and> \<not> limit_enabled (flags (visitField \<lparr>paginateDirective = ''paginate'', listDirective = ''list''\<rparr>
        initial_paginate_state friends_first_visit))"
proof -
  have node: "fv_node friends_first_visit = FieldNode ''friends'' None
      (Some [\<lparr>arg_name = ''first'', arg_value = IntValue ''10''\<rparr>])
      (Some [\<lparr>dir_name = ''paginate'', dir_arguments = Some []\<rparr>])
      (Some [FieldNode ''id'' None None None None])"
    by (simp add: friends_first_visit_def)
  have tagged: "find_directive (paginateDirective \<lparr>paginateDirective = ''paginate'', listDirective = ''list''\<rparr>)
        (Some [\<lparr>dir_name = ''paginate'', dir_arguments = Some []\<rparr>]) \<noteq> None"
    by (simp add: find_directive_def)
  from pagination_flags_exclusive[OF node tagged, of initial_paginate_state] node tagged
  show ?thesis
    by (simp add: friends_first_visit_def visitField_def find_directive_def paginationFlags_def
          passed_argument_names_def)
qed

text \<open>
  The claim as stated fails: a tagged field with a selection set whose definition
  declares all four cursor arguments, with no \<^verbatim>\<open>first\<close> and no \<^verbatim>\<open>last\<close> at the call
  site, has the forward and the backward pair enabled together.
\<close>

theorem pagination_flags_exclusive_counterexample:
  "first_enabled (flags (visitField \<lparr>paginateDirective = ''paginate'', listDirective = ''list''\<rparr>
        initial_paginate_state friends_plain_visit))
   \<and> after_enabled (flags (visitField \<lparr>paginateDirective = ''paginate'', listDirective = ''list''\<rparr>
        initial_paginate_state friends_plain_visit))
   \<and> last_enabled (flags (visitField \<lparr>paginateDirective = ''paginate'', listDirective = ''list''\<rparr>
        initial_paginate_state friends_plain_visit))
   \<and> before_enabled (flags (visitField \<lparr>paginateDirective = ''paginate'', listDirective = ''list''\<rparr>
        initial_paginate_state friends_plain_visit))"
  by (simp add: friends_plain_visit_def visitField_def find_directive_def paginationFlags_def
        passed_argument_names_def)

text \<open>
  C5 (as amended). For every paginate-tagged field that has a selection set and whose
  definition declares \<^verbatim>\<open>first\<close>, \<^verbatim>\<open>after\<close>, \<^verbatim>\<open>last\<close> and \<^verbatim>\<open>before\<close>: if the call
  site passes \<^verbatim>\<open>last\<close> and does not pass \<^verbatim>\<open>first\<close>, the transform enables the
  backward flags and disables the forward flags.
\<close>

theorem last_selects_backward:
  assumes "fv_node v = FieldNode n a as ds (Some sel)"
    and "find_directive (paginateDirective cfg) ds \<noteq> None"
    and "''first'' \<in> set (fv_schema_args v)" and "''after'' \<in> set (fv_schema_args v)"
    and "''last'' \<in> set (fv_schema_args v)" and "''before'' \<in> set (fv_schema_args v)"
    and "''last'' \<in> set (passed_argument_names as)"
    and "''first'' \<notin> set (passed_argument_names as)"
  shows "last_enabled (flags (visitField cfg st v))
       \<and> before_enabled (flags (visitField cfg st v))
       \<and> \<not> first_enabled (flags (visitField cfg st v))
       \<and> \<not> after_enabled (flags (visitField cfg st v))"
  unfolding visitField_tagged(1)[OF assms(1,2)] paginationFlags_def Let_def
  using assms(3-8) by simp

theorem last_selects_backward_witness:
  "fv_node friends_last_visit = friends_field
   \<and> last_enabled (flags (visitField \<lparr>paginateDirective = ''paginate'', listDirective = ''list''\<rparr>
        initial_paginate_state friends_last_visit))
   \<and> before_enabled (flags (visitField \<lparr>paginateDirective = ''paginate'', listDirective = ''list''\<rparr>
        initial_paginate_state friends_last_visit))
   \<and> \<not> first_enabled (flags (visitField \<lparr>paginateDirective = ''paginate'', listDirective = ''list''\<rparr>
        initial_paginate_state friends_last_visit))
   \<and> \<not> after_enabled (flags (visitField \<lparr>paginateDirective = ''paginate'', listDirective = ''list''\<rparr>
        initial_paginate_state friends_last_visit))"
proof -
  have node: "fv_node friends_last_visit = FieldNode ''friends'' None
     (Some [\<lparr>arg_name = ''last'', arg_value = IntValue ''10''\<rparr>])
     (Some [\<lparr>dir_name = ''paginate'', dir_arguments = Some []\<rparr>])
     (Some [FieldNode ''edges'' None None None
        (Some [FieldNode ''node'' None None None (Some [FieldNode ''id'' None None None None])])])"
    by (simp add: friends_last_visit_def friends_field_def)
  have tagged: "find_directive (paginateDirective \<lparr>paginateDirective = ''paginate'', listDirective = ''list''\<rparr>)
        (Some [\<lparr>dir_name = ''paginate'', dir_arguments = Some []\<rparr>]) \<noteq> None"
    by (simp add: find_directive_def)
  have declared: "''first'' \<in> set (fv_schema_args friends_last_visit)"
    "''after'' \<in> set (fv_schema_args friends_last_visit)"
    "''last'' \<in> set (fv_schema_args friends_last_visit)"
    "''before'' \<in> set (fv_schema_args friends_last_visit)"
    by (simp_all add: friends_last_visit_def)
  have passed: "''last'' \<in> set (passed_argument_names (Some [\<lparr>arg_name = ''last'', arg_value = IntValue ''10''\<rparr>]))"
    "''first'' \<notin> set (passed_argument_names (Some [\<lparr>arg_name = ''last'', arg_value = IntValue ''10''\<rparr>]))"
    by (simp_all add: passed_argument_names_def)
  from last_selects_backward[OF node tagged declared passed, of initial_paginate_state]
  show ?thesis by (simp add: friends_last_visit_def)
qed

text \<open>
  The claim as stated fails for a tagged field without a selection set: for
  \<^verbatim>\<open>ids(last: 5) @paginate\<close> on a field that declares the four cursor arguments the
  visitor returns before it computes anything, and no flag is enabled.
\<close>

theorem last_selects_backward_counterexample:
  "find_directive (paginateDirective \<lparr>paginateDirective = ''paginate'', listDirective = ''list''\<rparr>)
     (field_directives (fv_node ids_last_visit)) \<noteq> None
   \<and> set [''first'', ''after'', ''last'', ''before''] = set (fv_schema_args ids_last_visit)
   \<and> passed_argument_names (field_arguments (fv_node ids_last_visit)) = [''last'']
   \<and> \<not> last_enabled (flags (visitField \<lparr>paginateDirective = ''paginate'', listDirective = ''list''\<rparr>
        initial_paginate_state ids_last_visit))
   \<and> \<not> before_enabled (flags (visitField \<lparr>paginateDirective = ''paginate'', listDirective = ''list''\<rparr>
        initial_paginate_state ids_last_visit))"
  by (simp add: ids_last_visit_def visitField_def find_directive_def passed_argument_names_def
        initial_paginate_state_def initial_flags_def)

lemma visitDefinitions_result:
  "visitDefinitions schema ds st = Inl e \<Longrightarrow>
     e = PaginateNotQuery \<and> (\<exists>op n. OperationDefinition op n \<in> set ds \<and> op \<noteq> Query)"
  by (induction schema ds st rule: visitDefinitions.induct) (auto split: if_splits)

text \<open>
  C8. For every document in which a paginate-tagged field was found: either the
  document has an operation that is not a query and the transform throws, or the
  transform records a refetch descriptor whose \<^verbatim>\<open>update\<close> is \<^verbatim>\<open>prepend\<close> if and only if
  the \<^verbatim>\<open>last\<close> flag is enabled (and \<^verbatim>\<open>append\<close> otherwise).
\<close>

theorem refetch_update_follows_last:
  assumes "paginated (foldl (visitField cfg) initial_paginate_state (doc_fields doc))"
  shows "case paginateDocument cfg schema doc of
           Inl e \<Rightarrow> e = PaginateNotQuery
             \<and> (\<exists>op n. OperationDefinition op n \<in> set (doc_definitions doc) \<and> op \<noteq> Query)
         | Inr doc' \<Rightarrow>
             (\<exists>r. doc_refetch doc' = Some r
               \<and> (update r = Prepend) =
                   last_enabled (flags (foldl (visitField cfg) initial_paginate_state (doc_fields doc)))
               \<and> (update r = Append) =
                   (\<not> last_enabled (flags (foldl (visitField cfg) initial_paginate_state (doc_fields doc)))))"
proof (cases "visitDefinitions schema (doc_definitions doc) (False, [])")
  case (Inl e)
  with assms visitDefinitions_result[OF Inl] show ?thesis
    by (simp add: paginateDocument_def Let_def)
next
  case (Inr p)
  obtain nodeQuery fragment where "p = (nodeQuery, fragment)" by (cases p)
  with assms Inr show ?thesis
    by (simp add: paginateDocument_def Let_def)
qed

theorem refetch_update_follows_last_witness:
  "paginated (foldl (visitField \<lparr>paginateDirective = ''paginate'', listDirective = ''list''\<rparr>)
       initial_paginate_state (doc_fields friends_document))
   \<and> paginateDocument \<lparr>paginateDirective = ''paginate'', listDirective = ''list''\<rparr>
        \<lparr>queryTypeName = Some ''Query'', nodeImplementations = Some [''User'']\<rparr> friends_document
      = Inr (friends_document\<lparr>doc_refetch := Some
          \<lparr>update = Prepend, path = [''friends''], fetch_method = Cursor, embedded = True,
           targetType = ''Node''\<rparr>\<rparr>)"
proof -
  have h: "paginated (foldl (visitField \<lparr>paginateDirective = ''paginate'', listDirective = ''list''\<rparr>)
       initial_paginate_state (doc_fields friends_document))"
    by (simp add: friends_document_def friends_field_def visitField_def find_directive_def)
  show ?thesis
    using h refetch_update_follows_last[OF h,
        of "\<lparr>queryTypeName = Some ''Query'', nodeImplementations = Some [''User'']\<rparr>"]
    by (simp add: friends_document_def friends_field_def visitField_def find_directive_def
          paginateDocument_def paginationFlags_def passed_argument_names_def
          initial_paginate_state_def refetchTargetType_def)
qed

section \<open>Properties of the list transform\<close>

lemma connectionSelection_error:
  "connectionSelection schema field type selection = Inl e \<Longrightarrow> e = TypeError"
  unfolding connectionSelection_def Let_def
  by (auto split: if_splits option.splits prod.splits)

text \<open>The checks of the classification that do fall back to a plain list.\<close>

lemma connectionSelection_without_cursor_arguments:
  assumes "\<not> (fieldArgs field ''first'' = Some ''Int'' \<and> fieldArgs field ''after'' = Some ''String'')"
    and "\<not> (fieldArgs field ''last'' = Some ''Int'' \<and> fieldArgs field ''before'' = Some ''String'')"
  shows "connectionSelection schema field type selection =
           Inr \<lparr>cr_selection = selection, cr_type = type, cr_connection = False\<rparr>"
  using assms unfolding connectionSelection_def Let_def by auto

lemma connectionSelection_without_edges:
  assumes "(case selection of None \<Rightarrow> None | Some sels \<Rightarrow> find (is_field_named ''edges'') sels) = None"
  shows "connectionSelection schema field type selection =
           Inr \<lparr>cr_selection = selection, cr_type = type, cr_connection = False\<rparr>"
  using assms unfolding connectionSelection_def Let_def by auto

text \<open>
  C3 (fails on the code). The claim: when the classification fails at any step, also
  when the edges selection has no \<^verbatim>\<open>node\<close> field, the function returns the field's own
  selection set with \<^verbatim>\<open>connection: false\<close> and raises nothing. The code: for the
  field \<^verbatim>\<open>friends(first: Int, after: String): UserConnection\<close> with the selection
  \<^verbatim>\<open>{ edges { cursor } }\<close> the \<^verbatim>\<open>find\<close> for \<^verbatim>\<open>node\<close> gives \<^verbatim>\<open>undefined\<close> and
  \<^verbatim>\<open>nodeSelection.selectionSet\<close> throws a TypeError.
\<close>

theorem connectionSelection_edges_without_node_raises:
  "connectionSelection user_schema
     \<lparr>fd_args = [(''first'', NamedType ''Int''), (''after'', NamedType ''String'')],
      fd_type = NamedType ''UserConnection''\<rparr>
     ''User''
     (Some [FieldNode ''edges'' None None None (Some [FieldNode ''cursor'' None None None None])])
   = Inl TypeError"
  by (simp add: connectionSelection_def fieldArgs_def)

text \<open>The same field with \<^verbatim>\<open>{ edges { node { id } } }\<close> is a connection.\<close>

lemma connectionSelection_connection:
  "connectionSelection user_schema
     \<lparr>fd_args = [(''first'', NamedType ''Int''), (''after'', NamedType ''String'')],
      fd_type = NamedType ''UserConnection''\<rparr>
     ''User''
     (Some [FieldNode ''edges'' None None None
        (Some [FieldNode ''node'' None None None (Some [FieldNode ''id'' None None None None])])])
   = Inr \<lparr>cr_selection = Some [FieldNode ''id'' None None None None], cr_type = ''User'',
          cr_connection = True\<rparr>"
  by (simp add: connectionSelection_def fieldArgs_def user_schema_def second_to_last_def)

subsection \<open>The accumulated errors\<close>

lemma naming_errors_append:
  "naming_errors cfg seen (xs @ ys) =
     naming_errors cfg seen xs @ naming_errors cfg (registered_names cfg seen xs) ys"
  by (induction cfg seen xs rule: naming_errors.induct)
     (auto split: option.splits value_node.splits)

lemma registered_names_append:
  "registered_names cfg seen (xs @ ys) =
     registered_names cfg (registered_names cfg seen xs) ys"
  by (induction cfg seen xs rule: registered_names.induct)
     (auto split: option.splits value_node.splits)

lemma map_of_assign:
  "map_of (assign k v ps) = (map_of ps)(k \<mapsto> v)"
  by (induction ps) auto

lemma registry_is_lookup:
  "registry_is st seen \<Longrightarrow> n \<notin> set object_prototype_names \<Longrightarrow> lists_has st n = (n \<in> set seen)"
  by (auto simp: registry_is_def lists_has_def)

lemma registry_is_errors:
  "registry_is st seen \<Longrightarrow> registry_is (push_error kind node file st) seen"
  by (simp add: registry_is_def push_error_def)

lemma registry_is_update:
  assumes "registry_is st seen" and "n \<notin> set object_prototype_names"
  shows "registry_is (lists_assign n r st) (n # seen)"
proof -
  from assms(2) have "n \<noteq> ''__proto__''"
    by (auto simp: object_prototype_names_def)
  with assms(1) show ?thesis
    by (simp add: registry_is_def lists_assign_def map_of_assign)
qed

lemma lists_assign_errors:
  "ws_errors (lists_assign n r st) = ws_errors st"
  by (simp add: lists_assign_def)

text \<open>
  One step of the walk that returns, on a directive whose name is not inherited, adds
  the naming errors of that directive.
\<close>

lemma visitDirective_step:
  assumes run: "visitDirective cfg schema file v st = Inr st'"
    and reg: "registry_is st seen"
    and own: "own_name cfg (dv_node v)"
  shows "ws_errors st' = ws_errors st @ naming_errors cfg seen [(file, dv_node v)]
       \<and> registry_is st' (registered_names cfg seen [(file, dv_node v)])"
proof (cases "dir_name (dv_node v) = listDirective cfg \<or> dir_name (dv_node v) = paginateDirective cfg")
  case False
  with run have "st' = st" by (simp add: visitDirective_def)
  with False reg show ?thesis by simp
next
  case tagged: True
  show ?thesis
  proof (cases "name_argument (dv_node v)")
    case None
    with run tagged have "st' = (if dir_name (dv_node v) = listDirective cfg
        then push_error MustHaveName (dv_node v) file st else st)"
      by (auto simp: visitDirective_def)
    with tagged None reg show ?thesis
      by (simp add: registry_is_errors) (simp add: push_error_def)
  next
    case (Some nameArg)
    show ?thesis
    proof (cases "\<exists>name. arg_value nameArg = StringValue name")
      case False
      with run tagged Some have st': "st' = push_error MustBeString (dv_node v) file st"
        by (cases "arg_value nameArg") (auto simp: visitDirective_def Let_def)
      from False have "naming_errors cfg seen [(file, dv_node v)] =
          [\<lparr>message = MustBeString, directive_name = dir_name (dv_node v), filepath = file\<rparr>]"
        and "registered_names cfg seen [(file, dv_node v)] = seen"
        using tagged Some by (cases "arg_value nameArg"; auto)+
      with st' reg show ?thesis
        by (simp add: registry_is_errors) (simp add: push_error_def)
    next
      case True
      then obtain name where name: "arg_value nameArg = StringValue name" by blast
      from own tagged Some name have plain: "name \<notin> set object_prototype_names"
        by (simp add: own_name_def registers_def)
      let ?st1 = "if lists_has st name
          then push_error MustBeUnique (dv_node v) file st else st"
      from run tagged Some name obtain r where
        r: "connectionSelection schema (dv_field_def v) (dv_type v) (dv_selection v) = Inr r"
        by (cases "connectionSelection schema (dv_field_def v) (dv_type v) (dv_selection v)")
           (simp_all add: visitDirective_def Let_def)
      with run tagged Some name have
        st': "st' = lists_assign name
               \<lparr>lr_selection = cr_selection r, lr_type = cr_type r, lr_filename = file\<rparr> ?st1"
        by (simp add: visitDirective_def Let_def)
      have reg1: "registry_is ?st1 seen"
        using reg by (simp add: registry_is_errors)
      have err1: "ws_errors ?st1 = ws_errors st @ naming_errors cfg seen [(file, dv_node v)]"
        using tagged Some name registry_is_lookup[OF reg plain]
        by (auto simp: push_error_def)
      have names: "registered_names cfg seen [(file, dv_node v)] = name # seen"
        using tagged Some name by simp
      have "ws_errors st' = ws_errors ?st1" unfolding st' by (rule lists_assign_errors)
      moreover have "registry_is st' (name # seen)"
        unfolding st' by (rule registry_is_update[OF reg1 plain])
      ultimately show ?thesis using err1 names by simp
    qed
  qed
qed

lemma visitListField_step:
  "visitListField cfg schema v st = Inr st' \<Longrightarrow> st' = st"
  unfolding visitListField_def
  by (auto split: selection_node.splits if_splits sum.splits)

lemma walkVisits_errors:
  assumes "walkVisits cfg schema file vs st = Inr st'"
    and "registry_is st seen"
    and "own_names cfg (directives_of_visits file vs)"
  shows "ws_errors st' = ws_errors st @ naming_errors cfg seen (directives_of_visits file vs)
       \<and> registry_is st' (registered_names cfg seen (directives_of_visits file vs))"
  using assms
proof (induction vs arbitrary: st seen)
  case Nil
  then show ?case by simp
next
  case (Cons x vs)
  show ?case
  proof (cases x)
    case (VisitDirective v)
    with Cons.prems(1) obtain st1 where
      st1: "visitDirective cfg schema file v st = Inr st1"
      and rest: "walkVisits cfg schema file vs st1 = Inr st'"
      by (auto split: sum.splits)
    from Cons.prems(3) VisitDirective have own: "own_name cfg (dv_node v)"
      and owns: "own_names cfg (directives_of_visits file vs)"
      by (simp_all add: own_names_def)
    note step = visitDirective_step[OF st1 Cons.prems(2) own]
    from Cons.IH[OF rest conjunct2[OF step] owns] conjunct1[OF step]
    show ?thesis
      using naming_errors_append[of cfg seen "[(file, dv_node v)]" "directives_of_visits file vs"]
        registered_names_append[of cfg seen "[(file, dv_node v)]" "directives_of_visits file vs"]
      by (simp add: VisitDirective)
  next
    case (VisitField v)
    with Cons.prems(1) obtain st1 where
      st1: "visitListField cfg schema v st = Inr st1"
      and rest: "walkVisits cfg schema file vs st1 = Inr st'"
      by (auto split: sum.splits)
    from visitListField_step[OF st1] have "st1 = st" .
    with Cons.IH[of st seen] rest Cons.prems(2,3) show ?thesis
      by (simp add: VisitField)
  qed
qed

lemma walkDocuments_errors:
  assumes "walkDocuments cfg schema docs st = Inr st'"
    and "registry_is st seen"
    and "own_names cfg (directives_of docs)"
  shows "ws_errors st' = ws_errors st @ naming_errors cfg seen (directives_of docs)"
  using assms
proof (induction docs arbitrary: st seen)
  case Nil
  then show ?case by (simp add: directives_of_def)
next
  case (Cons doc docs)
  from Cons.prems(1) obtain st1 where
    st1: "walkVisits cfg schema (ld_filename doc) (ld_visits doc) st = Inr st1"
    and rest: "walkDocuments cfg schema docs st1 = Inr st'"
    by (auto split: sum.splits)
  from Cons.prems(3) have own: "own_names cfg (directives_of_visits (ld_filename doc) (ld_visits doc))"
    and owns: "own_names cfg (directives_of docs)"
    by (simp_all add: own_names_def directives_of_def)
  note step = walkVisits_errors[OF st1 Cons.prems(2) own]
  from Cons.IH[OF rest conjunct2[OF step] owns] conjunct1[OF step]
  show ?case
    using naming_errors_append[of cfg seen
        "directives_of_visits (ld_filename doc) (ld_visits doc)" "directives_of docs"]
    by (simp add: directives_of_def)
qed

lemma walkVisits_raises:
  "walkVisits cfg schema file vs st = Inl e \<Longrightarrow> e = TypeError"
proof (induction vs arbitrary: st)
  case Nil
  then show ?case by simp
next
  case (Cons x vs)
  then show ?case
    by (cases x)
       (auto simp: visitDirective_def visitListField_def Let_def
             dest: connectionSelection_error
             split: sum.splits if_splits option.splits value_node.splits selection_node.splits)
qed

lemma walkDocuments_raises:
  "walkDocuments cfg schema docs st = Inl e \<Longrightarrow> e = TypeError"
  by (induction docs arbitrary: st) (auto split: sum.splits dest: walkVisits_raises)

text \<open>
  What does hold of the batch. When no classification throws and no list name is the
  name of a property of \<^verbatim>\<open>Object.prototype\<close>, the walk reaches the end of the last
  document with one error for each list directive without a name, each list or
  paginate directive whose name is not a string, and each one whose name an earlier
  directive anywhere in the document set has registered, in visit order; the function
  throws that batch if it is not empty.
\<close>

lemma walk_collects_naming_errors:
  assumes "walkDocuments cfg schema documents initial_walk_state = Inr st"
    and "own_names cfg (directives_of documents)"
  shows "ws_errors st = naming_errors cfg [] (directives_of documents)"
  using walkDocuments_errors[OF assms(1) _ assms(2), of "[]"]
  by (simp add: initial_walk_state_def registry_is_def)

lemma addListFragments_batch:
  assumes "walkDocuments cfg schema documents initial_walk_state = Inr st"
    and "own_names cfg (directives_of documents)"
    and "naming_errors cfg [] (directives_of documents) \<noteq> []"
  shows "addListFragments cfg schema documents
       = Inl (ListErrors (naming_errors cfg [] (directives_of documents)))"
  using assms(3) walk_collects_naming_errors[OF assms(1,2)] assms(1)
  by (simp add: addListFragments_def)

lemma paginate_without_name_adds_nothing:
  assumes "dir_name (dv_node v) = paginateDirective cfg"
    and "paginateDirective cfg \<noteq> listDirective cfg"
    and "name_argument (dv_node v) = None"
  shows "visitDirective cfg schema file v st = Inr st"
  using assms by (simp add: visitDirective_def)

lemmas list_walk_simps =
  tagged_def id_visit_def id_field_def name_argument_def find_directive_def
  visitDirective_def visitListField_def connectionSelection_def fieldArgs_def
  push_error_def lists_has_def lists_assign_def object_prototype_names_def
  initial_walk_state_def plain_users_def directives_of_def

lemma batch_of_two_documents:
  "addListFragments \<lparr>paginateDirective = ''paginate'', listDirective = ''list''\<rparr> user_schema
     [users_document, friends_list_document]
   = Inl (ListErrors
       [\<lparr>message = MustHaveName, directive_name = ''list'', filepath = ''users.graphql''\<rparr>,
        \<lparr>message = MustBeUnique, directive_name = ''list'', filepath = ''friends.graphql''\<rparr>,
        \<lparr>message = MustBeString, directive_name = ''list'', filepath = ''friends.graphql''\<rparr>])"
  by (simp add: addListFragments_def users_document_def friends_list_document_def list_walk_simps)

text \<open>
  A first list called \<^verbatim>\<open>constructor\<close> is reported as a duplicate, although no
  directive has registered the name: \<^verbatim>\<open>lists['constructor']\<close> is the inherited
  function.
\<close>

lemma inherited_name_reported_as_duplicate:
  "addListFragments \<lparr>paginateDirective = ''paginate'', listDirective = ''list''\<rparr> user_schema
     [constructor_document]
   = Inl (ListErrors
       [\<lparr>message = MustBeUnique, directive_name = ''list'', filepath = ''constructor.graphql''\<rparr>])
   \<and> naming_errors \<lparr>paginateDirective = ''paginate'', listDirective = ''list''\<rparr> []
        (directives_of [constructor_document]) = []"
  by (simp add: addListFragments_def constructor_document_def list_walk_simps)

text \<open>
  C7 (fails on the code). The claim: the errors for list directives without a name,
  with a name that is not a string or with a name registered earlier are accumulated
  and raised together as one batch only after every document has been walked, and the
  walk never stops early. The code: for the document set of
  \<^verbatim>\<open>users @list { id }\<close>, then
  \<^verbatim>\<open>friends @list(name: "F") { edges { cursor } }\<close>, then
  \<^verbatim>\<open>users @list(name: 5) { id }\<close>, the walk adds the error for the missing name of the
  first document to the accumulator, and in the second document the classification of
  \<^verbatim>\<open>friends\<close> throws a TypeError out of the visit. The function ends there with
  that TypeError: the accumulated error is never raised, and the third document, which
  has a naming error of its own, is never walked.
\<close>

theorem list_errors_lost_on_TypeError:
  "addListFragments \<lparr>paginateDirective = ''paginate'', listDirective = ''list''\<rparr> user_schema
     [nameless_document, edges_document, number_document]
   = Inl TypeError
   \<and> walkDocuments \<lparr>paginateDirective = ''paginate'', listDirective = ''list''\<rparr> user_schema
       [nameless_document] initial_walk_state
     = Inr \<lparr>ws_lists = [], ws_proto = None,
            ws_errors = [\<lparr>message = MustHaveName, directive_name = ''list'',
                          filepath = ''nameless.graphql''\<rparr>]\<rparr>
   \<and> naming_errors \<lparr>paginateDirective = ''paginate'', listDirective = ''list''\<rparr> []
        (directives_of [nameless_document, edges_document, number_document])
     = [\<lparr>message = MustHaveName, directive_name = ''list'', filepath = ''nameless.graphql''\<rparr>,
        \<lparr>message = MustBeString, directive_name = ''list'', filepath = ''number.graphql''\<rparr>]"
  by (simp add: addListFragments_def nameless_document_def edges_document_def
        number_document_def friends_def_def edges_field_def cursor_field_def list_walk_simps)

section \<open>Properties of the selection compiler\<close>

lemma appearances_direct:
  "appearances frags fuel direct sels = Some occs \<Longrightarrow>
     ((n, True, s) \<in> set occs) = (direct \<and> (n, s) \<in> set (direct_fields sels))"
proof (induction frags fuel direct sels arbitrary: occs rule: appearances.induct)
  case (1 frags fuel direct)
  then show ?case by simp
next
  case (2 frags fuel direct m a as ds sel rest)
  from "2.prems" obtain occs' where
    rest: "appearances frags fuel direct rest = Some occs'"
    and occs: "occs = (response_name (FieldNode m a as ds sel), direct,
                 (case sel of None \<Rightarrow> [] | Some sels \<Rightarrow> sels)) # occs'"
    by (auto split: option.splits)
  from "2.IH"[OF rest] show ?case unfolding occs by auto
next
  case (3 frags fuel direct t sels rest)
  from "3.prems" obtain occs1 occs2 where
    inner: "appearances frags fuel direct sels = Some occs1"
    and rest: "appearances frags fuel direct rest = Some occs2"
    and occs: "occs = occs1 @ occs2"
    by (auto split: option.splits)
  from "3.IH"(1)[OF inner] "3.IH"(2)[OF inner rest] show ?case unfolding occs by auto
next
  case (4 frags fuel direct name ds rest)
  from "4.prems" obtain k where fuel: "fuel = Suc k" by (cases fuel) simp_all
  from "4.prems" fuel obtain occs1 occs2 where
    inner: "(case frags name of None \<Rightarrow> Some [] | Some sels \<Rightarrow> appearances frags k False sels)
              = Some occs1"
    and rest: "appearances frags fuel direct rest = Some occs2"
    and occs: "occs = occs1 @ occs2"
    by (auto split: option.splits)
  have none: "(n, True, s) \<notin> set occs1"
  proof (cases "frags name")
    case None
    with inner show ?thesis by simp
  next
    case (Some sels)
    with inner have "appearances frags k False sels = Some occs1" by simp
    from "4.IH"(1)[OF fuel Some this] show ?thesis by simp
  qed
  from "4.IH"(2)[OF fuel inner rest] none show ?case unfolding occs by auto
qed

lemma level_appearances_direct:
  "level_appearances frags fuel level = Some occs \<Longrightarrow>
     ((n, True, s) \<in> set occs)
       = (\<exists>sels. (True, sels) \<in> set level \<and> (n, s) \<in> set (direct_fields sels))"
proof (induction frags fuel level arbitrary: occs rule: level_appearances.induct)
  case (1 frags fuel)
  then show ?case by simp
next
  case (2 frags fuel direct sels rest)
  from "2.prems" obtain occs1 occs2 where
    part: "appearances frags fuel direct sels = Some occs1"
    and rest: "level_appearances frags fuel rest = Some occs2"
    and occs: "occs = occs1 @ occs2"
    by (auto split: option.splits)
  from appearances_direct[OF part, of n s] "2.IH"[OF part rest]
  show ?case unfolding occs by auto
qed

lemma masked_flag_iff: "masked_flag n occs = (\<not> (\<exists>s. (n, True, s) \<in> set occs))"
  unfolding masked_flag_def list_all_iff by force

lemma merged_children_direct:
  "level_direct_path (merged_children n occs) route
     = (\<exists>s. (n, True, s) \<in> set occs \<and> direct_path s route)"
  unfolding level_direct_path_def merged_children_def list_ex_iff by force

lemma level_direct_path_Cons:
  "level_direct_path level (n # route)
     = (\<exists>sels s. (True, sels) \<in> set level \<and> (n, s) \<in> set (direct_fields sels)
          \<and> direct_path s route)"
proof
  assume "level_direct_path level (n # route)"
  then obtain part where part: "part \<in> set level" "fst part"
    and reach: "direct_path (snd part) (n # route)"
    by (auto simp: level_direct_path_def list_ex_iff)
  from reach obtain occ where occ: "occ \<in> set (direct_fields (snd part))"
    "fst occ = n" "direct_path (snd occ) route"
    by (auto simp: list_ex_iff)
  from part have "(True, snd part) \<in> set level"
    by (metis prod.collapse)
  moreover from occ have "(n, snd occ) \<in> set (direct_fields (snd part))"
    by (metis prod.collapse)
  ultimately show "\<exists>sels s. (True, sels) \<in> set level \<and> (n, s) \<in> set (direct_fields sels)
      \<and> direct_path s route"
    using occ(3) by blast
next
  assume "\<exists>sels s. (True, sels) \<in> set level \<and> (n, s) \<in> set (direct_fields sels)
      \<and> direct_path s route"
  then obtain sels s where "(True, sels) \<in> set level" and "(n, s) \<in> set (direct_fields sels)"
    and "direct_path s route"
    by blast
  then show "level_direct_path level (n # route)"
    by (force simp: level_direct_path_def list_ex_iff)
qed

text \<open>
  The selection sets merged under a field are reached by direct selections exactly
  when the document says so.
\<close>

lemma level_path_step:
  assumes "level_appearances frags fuel level = Some occs"
  shows "level_direct_path (merged_children n occs) route = level_direct_path level (n # route)"
  unfolding merged_children_direct level_direct_path_Cons
  using level_appearances_direct[OF assms, of n] by blast

lemma those_map_member:
  "those (map f xs) = Some ys \<Longrightarrow> y \<in> set ys \<Longrightarrow> \<exists>x \<in> set xs. f x = Some y"
  by (induction xs arbitrary: ys) (auto split: option.splits)

lemma compile_level_node:
  assumes "compile_level frags (Suc k) level = Some tree" and "map_of tree n = Some node"
  shows "\<exists>occs. level_appearances frags k level = Some occs
           \<and> cf_masked node = masked_flag n occs
           \<and> compile_level frags k (merged_children n occs) = Some (cf_fields node)"
proof -
  from assms(1) obtain occs where
    occs: "level_appearances frags k level = Some occs"
    and tree: "those (map (\<lambda>m.
              (case compile_level frags k (merged_children m occs) of
                 None \<Rightarrow> None
               | Some sub \<Rightarrow> Some (m, CompiledField (masked_flag m occs) sub)))
            (remdups (map fst occs))) = Some tree"
    by (auto split: option.splits)
  from assms(2) have "(n, node) \<in> set tree" by (rule map_of_SomeD)
  from those_map_member[OF tree this] obtain m where
    "(case compile_level frags k (merged_children m occs) of
        None \<Rightarrow> None
      | Some sub \<Rightarrow> Some (m, CompiledField (masked_flag m occs) sub)) = Some (n, node)"
    by blast
  then obtain sub where "compile_level frags k (merged_children m occs) = Some sub"
    and "m = n" and "node = CompiledField (masked_flag m occs) sub"
    by (auto split: option.splits)
  with occs show ?thesis by simp
qed

text \<open>The flag of every node of the tree of a level, by the length of the path.\<close>

lemma masked_at_level:
  assumes "compile_level frags fuel level = Some tree" and "node_at tree route = Some node"
  shows "cf_masked node = (\<not> level_direct_path level route)"
  using assms
proof (induction route arbitrary: fuel level tree)
  case Nil
  then show ?case by simp
next
  case (Cons n route)
  from Cons.prems(1) obtain k where fuel: "fuel = Suc k" by (cases fuel) simp_all
  show ?case
  proof (cases route)
    case Nil
    with Cons.prems(2) have here: "map_of tree n = Some node" by simp
    from compile_level_node[OF Cons.prems(1)[unfolded fuel] here] obtain occs where
      occs: "level_appearances frags k level = Some occs"
      and flag: "cf_masked node = masked_flag n occs"
      by blast
    have "level_direct_path level [n] = (\<exists>s. (n, True, s) \<in> set occs)"
      using level_path_step[OF occs, of n "[]"] by (simp add: merged_children_direct)
    with flag show ?thesis unfolding Nil by (simp add: masked_flag_iff)
  next
    case (Cons m rest)
    with Cons.prems(2) obtain parent where
      parent: "map_of tree n = Some parent"
      and below: "node_at (cf_fields parent) route = Some node"
      by (auto split: option.splits)
    from compile_level_node[OF Cons.prems(1)[unfolded fuel] parent] obtain occs where
      occs: "level_appearances frags k level = Some occs"
      and sub: "compile_level frags k (merged_children n occs) = Some (cf_fields parent)"
      by blast
    from Cons.IH[OF sub below] level_path_step[OF occs, of n route]
    show ?thesis by simp
  qed
qed

text \<open>
  C6. In every compiled selection tree, at every level: the \<^verbatim>\<open>masked\<close> flag of the
  field at a path of response names is true if and only if the document never selects
  that field directly at that level, that is, the field is introduced there only via
  fragment spreads. So a direct selection merged with an occurrence of the same field
  that comes from a fragment spread gives \<^verbatim>\<open>masked: false\<close>, also when the two are
  redundant.
\<close>

theorem masked_iff_never_directly_selected:
  assumes "compile_selection frags fuel sels = Some tree" and "node_at tree route = Some node"
  shows "cf_masked node = (\<not> direct_path sels route)"
  using masked_at_level[OF assms(1)[unfolded compile_selection_def] assms(2)]
  by (simp add: level_direct_path_def)

text \<open>The two tests on overlapping selections, evaluated.\<close>

lemma overlapping_query_compiled:
  "compile_selection overlapping_fragments 3 overlapping_query =
     Some [(''user'', CompiledField False [(''firstName'', CompiledField False [])])]"
  by (simp add: compile_selection_def overlapping_fragments_def overlapping_query_def leaf_def
        masked_flag_def merged_children_def eval_nat_numeral)

lemma nested_query_compiled:
  "compile_selection nested_fragments 4 nested_query =
     Some [(''user'', CompiledField False
        [(''friends'', CompiledField False
            [(''firstName'', CompiledField False []), (''id'', CompiledField True [])])])]"
  by (simp add: compile_selection_def nested_fragments_def nested_query_def leaf_def
        masked_flag_def merged_children_def eval_nat_numeral)

text \<open>A field under a field that only a spread introduces is masked as well.\<close>

lemma spread_only_query_compiled:
  "compile_selection nested_fragments 4 spread_only_query =
     Some [(''user'', CompiledField False
        [(''friends'', CompiledField True [(''id'', CompiledField True [])])])]"
  by (simp add: compile_selection_def nested_fragments_def spread_only_query_def leaf_def
        masked_flag_def merged_children_def eval_nat_numeral)

theorem masked_iff_never_directly_selected_witness:
  "compile_selection nested_fragments 4 nested_query =
     Some [(''user'', CompiledField False
        [(''friends'', CompiledField False
            [(''firstName'', CompiledField False []), (''id'', CompiledField True [])])])]
   \<and> node_at [(''user'', CompiledField False
        [(''friends'', CompiledField False
            [(''firstName'', CompiledField False []), (''id'', CompiledField True [])])])]
        [''user'', ''friends'', ''id''] = Some (CompiledField True [])
   \<and> \<not> direct_path nested_query [''user'', ''friends'', ''id'']
   \<and> node_at [(''user'', CompiledField False
        [(''friends'', CompiledField False
            [(''firstName'', CompiledField False []), (''id'', CompiledField True [])])])]
        [''user'', ''friends'', ''firstName''] = Some (CompiledField False [])
   \<and> direct_path nested_query [''user'', ''friends'', ''firstName'']"
proof -
  have masked: "node_at [(''user'', CompiledField False
        [(''friends'', CompiledField False
            [(''firstName'', CompiledField False []), (''id'', CompiledField True [])])])]
        [''user'', ''friends'', ''id''] = Some (CompiledField True [])"
    by simp
  have shown: "node_at [(''user'', CompiledField False
        [(''friends'', CompiledField False
            [(''firstName'', CompiledField False []), (''id'', CompiledField True [])])])]
        [''user'', ''friends'', ''firstName''] = Some (CompiledField False [])"
    by simp
  from masked_iff_never_directly_selected[OF nested_query_compiled masked]
    masked_iff_never_directly_selected[OF nested_query_compiled shown]
    nested_query_compiled masked shown
  show ?thesis by simp
qed

end
